theory Spec2Isabelle
  imports Complex_Main
begin

section \<open>Exceptions and results\<close>

text \<open>
  The Python exceptions that the class \<open>SAFE\<close> of \<open>pysafe/__init__.py\<close> can let escape.
  \<open>OtherError\<close> stands for whatever the wrapped Keras model or learner raises itself.
  A method that can raise returns \<open>error + 'a\<close>, with \<open>Inl\<close> for the exception.
\<close>

datatype error =
    NameError | AttributeError | TypeError | ValueError | IndexError
  | ZeroDivisionError | AxisError | OtherError

definition bind_e :: "error + 'a \<Rightarrow> ('a \<Rightarrow> error + 'b) \<Rightarrow> error + 'b" where
  "bind_e r f = (case r of Inl e \<Rightarrow> Inl e | Inr v \<Rightarrow> f v)"

fun mapM_e :: "('a \<Rightarrow> error + 'b) \<Rightarrow> 'a list \<Rightarrow> error + 'b list" where
  "mapM_e f [] = Inr []"
| "mapM_e f (x # xs) =
     (case f x of Inl e \<Rightarrow> Inl e
      | Inr v \<Rightarrow> (case mapM_e f xs of Inl e \<Rightarrow> Inl e | Inr vs \<Rightarrow> Inr (v # vs)))"

section \<open>Arrays\<close>

text \<open>
  Floating-point numbers are modelled by the reals. A one-dimensional array is a list, a
  two-dimensional array the list of its rows. The input data keeps its number of columns
  beside the rows, since \<open>X.shape\<close> is defined for an array without rows too.
\<close>

record ndarray2 =
  ncols :: nat
  cells :: "real list list"

definition wf_ndarray2 :: "ndarray2 \<Rightarrow> bool" where
  "wf_ndarray2 A = list_all (\<lambda>r. length r = ncols A) (cells A)"

definition np_ones :: "nat \<Rightarrow> real list" where
  "np_ones n = replicate n 1"

definition np_ones2 :: "nat \<Rightarrow> nat \<Rightarrow> real list list" where
  "np_ones2 r c = replicate r (replicate c 1)"

definition np_zeros2 :: "nat \<Rightarrow> nat \<Rightarrow> real list list" where
  "np_zeros2 r c = replicate r (replicate c 0)"

text \<open>\<open>np.multiply\<close> of two rows of the same length.\<close>

definition np_multiply :: "real list \<Rightarrow> real list \<Rightarrow> real list" where
  "np_multiply a b = map2 (*) a b"

text \<open>
  \<open>itertools.product(pool, repeat=n)\<close>, as the library documents it: starting from the one
  empty tuple, each of the \<open>n\<close> rounds extends every tuple by every element of the pool,
  tuples in the outer loop and pool elements in the inner one.
\<close>

fun product_repeat :: "'a list \<Rightarrow> nat \<Rightarrow> 'a list list" where
  "product_repeat pool 0 = [[]]"
| "product_repeat pool (Suc n) =
     concat (map (\<lambda>x. map (\<lambda>y. x @ [y]) pool) (product_repeat pool n))"

text \<open>\<open>np.flip\<close> without an axis reverses a two-dimensional array along both axes.\<close>

definition np_flip :: "'a list list \<Rightarrow> 'a list list" where
  "np_flip A = rev (map rev A)"

section \<open>The wrapped model and the learner\<close>

text \<open>
  The Keras model is a fixed pair of functions from a batch of rows: \<open>predict\<close> gives one
  row of outputs per input row, \<open>predict_classes\<close> one class per input row. Either may raise.
\<close>

record keras_model =
  predict :: "real list list \<Rightarrow> error + real list list"
  predict_classes :: "real list list \<Rightarrow> error + int list"

text \<open>
  The learner is the \<open>KDTree\<close> that \<open>learn\<close> builds on the scanned data, or an object passed
  in from outside: a \<open>KDTree\<close> built on any data, or a Keras model with its \<open>predict\<close> and
  its \<open>fit\<close> (which gives the trained model's \<open>predict\<close>).
\<close>

datatype learner =
    KDTree ndarray2
  | Keras "real list list \<Rightarrow> error + real list list"
          "real list list \<Rightarrow> real list list \<Rightarrow> error + (real list list \<Rightarrow> error + real list list)"

section \<open>The SAFE object\<close>

text \<open>The fields that \<open>__init__\<close> declares; \<open>None\<close> is \<open>None\<close>.\<close>

record safe =
  self_n_features :: "nat option"
  self_combinations_mode :: string
  self_algorithm :: "string option"
  self_combinations :: "real list list option"
  self_tree :: "unit option"
  self_X :: "ndarray2 option"
  self_y_better :: "real list list option"
  self_y_worst :: "real list list option"
  self_y :: "real list list option"
  self_aim :: "string option"
  self_model :: "keras_model option"
  self_n_points :: "nat option"
  self_random_state :: "nat option"
  self_n_combinations :: nat
  self_learner :: "learner option"

definition init :: "string \<Rightarrow> nat \<Rightarrow> nat option \<Rightarrow> nat option \<Rightarrow> safe" where
  "init combinations_mode n_combinations n_points random_state =
     \<lparr> self_n_features = None,
       self_combinations_mode = combinations_mode,
       self_algorithm = None,
       self_combinations = None,
       self_tree = None,
       self_X = None,
       self_y_better = None,
       self_y_worst = None,
       self_y = None,
       self_aim = None,
       self_model = None,
       self_n_points = n_points,
       self_random_state = random_state,
       self_n_combinations = n_combinations,
       self_learner = None \<rparr>"

section \<open>Generating the combinations\<close>

text \<open>
  \<open>_generate_combination\<close>, lines 172 to 182. The one-by-one loop runs over
  \<open>range(1, n_features)\<close>. In mode \<open>random\<close> the name \<open>random\<close> is used and never
  imported, so the call raises \<open>NameError\<close>. With \<open>n_features\<close> still \<open>None\<close>, each of
  the three modes raises \<open>TypeError\<close> on its first use of it.
\<close>

definition one_by_one :: "nat \<Rightarrow> real list list" where
  "one_by_one n = fold (\<lambda>i C. C[i := (C ! i)[i := 0]]) [1..<n] (np_ones2 (n + 1) n)"

definition generate_combination :: "safe \<Rightarrow> error + safe" where
  "generate_combination s =
     (let m = self_combinations_mode s in
      if m = ''all'' \<or> m = ''genetic'' then
        (case self_n_features s of
           None \<Rightarrow> Inl TypeError
         | Some n \<Rightarrow> Inr (s\<lparr>self_combinations := Some (np_flip (product_repeat [0, 1] n))\<rparr>))
      else if m = ''one-by-one'' then
        (case self_n_features s of
           None \<Rightarrow> Inl TypeError
         | Some n \<Rightarrow> Inr (s\<lparr>self_combinations := Some (one_by_one n)\<rparr>))
      else if m = ''random'' then
        (case self_n_features s of
           None \<Rightarrow> Inl TypeError
         | Some n \<Rightarrow> Inl NameError)
      else Inr s)"

section \<open>Scanning a model\<close>

text \<open>
  The loss arrays of \<open>scan\<close> are one-dimensional. Subtraction follows NumPy's broadcasting
  for one-dimensional operands: equal lengths are combined elementwise, an operand of
  length one is stretched, anything else raises \<open>ValueError\<close>.
\<close>

definition np_abs_sub :: "real list \<Rightarrow> real list \<Rightarrow> error + real list" where
  "np_abs_sub a b =
     (if length a = length b then Inr (map2 (\<lambda>u v. \<bar>u - v\<bar>) a b)
      else if length a = 1 then Inr (map (\<lambda>v. \<bar>hd a - v\<bar>) b)
      else if length b = 1 then Inr (map (\<lambda>u. \<bar>u - hd b\<bar>) a)
      else Inl ValueError)"

text \<open>The assignment \<open>losses[:, index] = v\<close> into a column of \<open>rows\<close> entries.\<close>

definition assign_column :: "nat \<Rightarrow> real list \<Rightarrow> error + real list" where
  "assign_column rows v =
     (if length v = rows then Inr v
      else if length v = 1 then Inr (replicate rows (hd v))
      else Inl ValueError)"

text \<open>
  \<open>argmax\<close> and \<open>argmin\<close> as NumPy computes them: one pass that keeps the first position
  of the extreme value, replacing it only by a strictly larger (smaller) entry. An empty
  sequence raises \<open>ValueError\<close>.
\<close>

fun argmax_from :: "nat \<Rightarrow> real \<Rightarrow> nat \<Rightarrow> real list \<Rightarrow> nat" where
  "argmax_from bi bv i [] = bi"
| "argmax_from bi bv i (x # xs) =
     (if bv < x then argmax_from i x (Suc i) xs else argmax_from bi bv (Suc i) xs)"

fun argmin_from :: "nat \<Rightarrow> real \<Rightarrow> nat \<Rightarrow> real list \<Rightarrow> nat" where
  "argmin_from bi bv i [] = bi"
| "argmin_from bi bv i (x # xs) =
     (if x < bv then argmin_from i x (Suc i) xs else argmin_from bi bv (Suc i) xs)"

definition np_argmax :: "real list \<Rightarrow> error + nat" where
  "np_argmax xs = (case xs of [] \<Rightarrow> Inl ValueError | x # r \<Rightarrow> Inr (argmax_from 0 x 1 r))"

definition np_argmin :: "real list \<Rightarrow> error + nat" where
  "np_argmin xs = (case xs of [] \<Rightarrow> Inl ValueError | x # r \<Rightarrow> Inr (argmin_from 0 x 1 r))"

text \<open>
  One column of the loss matrix, line 95:
  \<open>abs(self.model.predict(np.multiply(p, self.X)).flatten() - y)\<close>, stored into a column
  of \<open>rows\<close> entries.
\<close>

definition loss_column ::
  "keras_model \<Rightarrow> real list list \<Rightarrow> real list \<Rightarrow> nat \<Rightarrow> real list \<Rightarrow> error + real list" where
  "loss_column m Xs ys rows p =
     bind_e (predict m (map (np_multiply p) Xs)) (\<lambda>out.
     bind_e (np_abs_sub (concat out) ys) (assign_column rows))"

text \<open>Row \<open>i\<close> of the loss matrix whose columns are \<open>cols\<close>.\<close>

definition loss_row :: "real list list \<Rightarrow> nat \<Rightarrow> real list" where
  "loss_row cols i = map (\<lambda>c. c ! i) cols"

text \<open>
  Lines 93 to 98: the loss matrix and the two selections by \<open>argmax\<close> and \<open>argmin\<close>
  along axis 1. The result is the pair \<open>(y_worst, y_better)\<close>.
\<close>

definition scan_losses ::
  "keras_model \<Rightarrow> real list list \<Rightarrow> real list \<Rightarrow> nat \<Rightarrow> real list list
     \<Rightarrow> error + (real list list \<times> real list list)" where
  "scan_losses m Xs ys rows C =
     bind_e (mapM_e (loss_column m Xs ys rows) C) (\<lambda>cols.
     bind_e (mapM_e (\<lambda>i. np_argmax (loss_row cols i)) [0..<rows]) (\<lambda>worst.
     bind_e (mapM_e (\<lambda>i. np_argmin (loss_row cols i)) [0..<rows]) (\<lambda>better.
       Inr (map (\<lambda>j. C ! j) worst, map (\<lambda>j. C ! j) better))))"

section \<open>Forward selection\<close>

text \<open>
  The loss of one masked sample, lines 205 and 214:
  \<open>abs(self.model.predict(np.array([np.multiply(data, combination)])) - label)\<close>, an array
  with one entry per output of the model (flattened here).
\<close>

definition masked_loss :: "keras_model \<Rightarrow> real list \<Rightarrow> real \<Rightarrow> real list \<Rightarrow> error + real list" where
  "masked_loss m data label comb =
     bind_e (predict m [np_multiply data comb]) (\<lambda>out.
       Inr (map (\<lambda>v. \<bar>v - label\<bar>) (concat out)))"

text \<open>
  The truth value of a comparison of two loss arrays. An array with one entry compares as
  that entry; the truth value of an array with several entries raises \<open>ValueError\<close>
  (an array without entries is treated the same way).
  \<open>cmp_loss True\<close> is \<open><\<close> of the min variant, \<open>cmp_loss False\<close> is \<open>>\<close> of the max variant.
\<close>

definition cmp_loss :: "bool \<Rightarrow> real list \<Rightarrow> real list \<Rightarrow> error + bool" where
  "cmp_loss better a b =
     (if length a = 1 \<and> length b = 1
      then Inr (if better then hd a < hd b else hd b < hd a)
      else Inl ValueError)"

text \<open>
  Python's \<open>min\<close> and \<open>max\<close> of a list: the first element is kept until a later one
  compares strictly smaller (larger); the empty list raises \<open>ValueError\<close>.
\<close>

fun extreme_from :: "bool \<Rightarrow> real list \<Rightarrow> real list list \<Rightarrow> error + real list" where
  "extreme_from better best [] = Inr best"
| "extreme_from better best (x # xs) =
     (case cmp_loss better x best of
        Inl e \<Rightarrow> Inl e
      | Inr b \<Rightarrow> extreme_from better (if b then x else best) xs)"

definition py_extreme :: "bool \<Rightarrow> real list list \<Rightarrow> error + real list" where
  "py_extreme better losses =
     (case losses of [] \<Rightarrow> Inl ValueError | x # xs \<Rightarrow> extreme_from better x xs)"

text \<open>\<open>list.index\<close>: the first position holding an equal element, \<open>ValueError\<close> if none.\<close>

fun index_from :: "nat \<Rightarrow> 'a list \<Rightarrow> 'a \<Rightarrow> error + nat" where
  "index_from i [] v = Inl ValueError"
| "index_from i (x # xs) v = (if x = v then Inr i else index_from (Suc i) xs v)"

text \<open>
  The inner loop, lines 209 to 214: for each feature \<open>i\<close> in order that the current best
  combination has not zeroed yet, a copy with feature \<open>i\<close> set to 0.
\<close>

definition candidates :: "nat \<Rightarrow> real list \<Rightarrow> real list list" where
  "candidates n best = map (\<lambda>i. best[i := 0]) (filter (\<lambda>i. best ! i \<noteq> 0) [0..<n])"

text \<open>
  The outer loop, lines 206 to 222 and 229 to 245, with \<open>k\<close> iterations of
  \<open>range(self.n_features)\<close> left. The two methods of the source are the same text up to
  \<open>min\<close> and \<open><\<close> against \<open>max\<close> and \<open>>\<close>; the flag \<open>better\<close> chooses.
\<close>

fun forward_selection_loop ::
  "bool \<Rightarrow> keras_model \<Rightarrow> real list \<Rightarrow> real \<Rightarrow> nat \<Rightarrow> nat \<Rightarrow> real list \<Rightarrow> real list
     \<Rightarrow> error + real list" where
  "forward_selection_loop better m data label n 0 best best_loss = Inr best"
| "forward_selection_loop better m data label n (Suc k) best best_loss =
     (case mapM_e (masked_loss m data label) (candidates n best) of
        Inl e \<Rightarrow> Inl e
      | Inr losses \<Rightarrow>
          (case py_extreme better losses of
             Inl e \<Rightarrow> Inl e
           | Inr current_loss \<Rightarrow>
               (case cmp_loss better current_loss best_loss of
                  Inl e \<Rightarrow> Inl e
                | Inr accept \<Rightarrow>
                    if accept then
                      (case index_from 0 losses current_loss of
                         Inl e \<Rightarrow> Inl e
                       | Inr idx \<Rightarrow>
                           forward_selection_loop better m data label n k
                             (candidates n best ! idx) current_loss)
                    else Inr best)))"

definition forward_selection ::
  "bool \<Rightarrow> keras_model \<Rightarrow> nat \<Rightarrow> real list \<Rightarrow> real \<Rightarrow> error + real list" where
  "forward_selection better m n data label =
     bind_e (masked_loss m data label (np_ones n)) (\<lambda>best_loss.
       forward_selection_loop better m data label n n (np_ones n) best_loss)"

definition combination_search_forward_selection_min ::
  "keras_model \<Rightarrow> nat \<Rightarrow> real list \<Rightarrow> real \<Rightarrow> error + real list" where
  "combination_search_forward_selection_min = forward_selection True"

definition combination_search_forward_selection_max ::
  "keras_model \<Rightarrow> nat \<Rightarrow> real list \<Rightarrow> real \<Rightarrow> error + real list" where
  "combination_search_forward_selection_max = forward_selection False"

text \<open>
  The same loop, instrumented: it returns every value that \<open>best_combination\<close> takes, the
  initial one first, and the number of outer iterations that were started.
\<close>

fun forward_selection_trace ::
  "bool \<Rightarrow> keras_model \<Rightarrow> real list \<Rightarrow> real \<Rightarrow> nat \<Rightarrow> nat \<Rightarrow> real list \<Rightarrow> real list
     \<Rightarrow> error + (real list list \<times> nat)" where
  "forward_selection_trace better m data label n 0 best best_loss = Inr ([best], 0)"
| "forward_selection_trace better m data label n (Suc k) best best_loss =
     (case mapM_e (masked_loss m data label) (candidates n best) of
        Inl e \<Rightarrow> Inl e
      | Inr losses \<Rightarrow>
          (case py_extreme better losses of
             Inl e \<Rightarrow> Inl e
           | Inr current_loss \<Rightarrow>
               (case cmp_loss better current_loss best_loss of
                  Inl e \<Rightarrow> Inl e
                | Inr accept \<Rightarrow>
                    if accept then
                      (case index_from 0 losses current_loss of
                         Inl e \<Rightarrow> Inl e
                       | Inr idx \<Rightarrow>
                           (case forward_selection_trace better m data label n k
                                   (candidates n best ! idx) current_loss of
                              Inl e \<Rightarrow> Inl e
                            | Inr (tr, its) \<Rightarrow> Inr (best # tr, Suc its)))
                    else Inr ([best], 1))))"

text \<open>
  The row loops of \<open>scan\<close>, lines 87 to 91: sample \<open>i\<close> of the scanned data is searched
  with label \<open>y[i]\<close> and the mask is stored into row \<open>i\<close> of the target array.
\<close>

fun forward_selection_rows ::
  "(real list \<Rightarrow> real \<Rightarrow> error + real list) \<Rightarrow> nat \<Rightarrow> real list list \<Rightarrow> real list
     \<Rightarrow> real list list \<Rightarrow> error + real list list" where
  "forward_selection_rows f i [] ys T = Inr T"
| "forward_selection_rows f i (r # rs) ys T =
     (if length ys \<le> i then Inl IndexError
      else case f r (ys ! i) of
             Inl e \<Rightarrow> Inl e
           | Inr sel \<Rightarrow>
               if length T \<le> i then Inl IndexError
               else forward_selection_rows f (Suc i) rs ys (T[i := sel]))"

section \<open>scan\<close>

text \<open>
  \<open>train_test_split\<close> draws the subsample when \<open>n_points\<close> is set. It belongs to
  scikit-learn and is random unless a random state is given: it is a parameter of \<open>scan\<close>,
  called with the data, the labels, the train size and the random state.
\<close>

type_synonym splitter =
  "ndarray2 \<Rightarrow> real list \<Rightarrow> real \<Rightarrow> nat option \<Rightarrow> error + (ndarray2 \<times> real list)"

text \<open>Lines 64 to 67: the data and labels that are scanned.\<close>

definition scanned_data ::
  "splitter \<Rightarrow> safe \<Rightarrow> ndarray2 \<Rightarrow> real list \<Rightarrow> error + (ndarray2 \<times> real list)" where
  "scanned_data tts s X y =
     (case self_n_points s of
        None \<Rightarrow> Inr (X, y)
      | Some k \<Rightarrow>
          if length (cells X) = 0 then Inl ZeroDivisionError
          else tts X y (real k / real (length (cells X))) (self_random_state s))"

text \<open>
  Lines 77 to 98: the search, by the mode of the object. In mode \<open>genetic\<close> the first
  iteration of the loop reads the name \<open>y_train\<close>, which nothing defines: \<open>NameError\<close>,
  unless there is no sample; \<open>maximize\<close> and \<open>__combination_search_genetic\<close> are never
  reached. In mode \<open>forward_selection\<close> the masks are stored into the
  zero array that line 70 or 71 has just assigned. In the remaining modes
  \<open>self.combinations.shape\<close> needs the combinations to be set.
\<close>

definition scan_modes ::
  "keras_model \<Rightarrow> nat \<Rightarrow> nat \<Rightarrow> ndarray2 \<Rightarrow> real list \<Rightarrow> string \<Rightarrow> safe \<Rightarrow> error + safe" where
  "scan_modes model n rows Xs ys aim s4 =
     (if self_combinations_mode s4 = ''genetic'' then
        (if cells Xs = [] then Inr s4 else Inl NameError)
      else if self_combinations_mode s4 = ''forward_selection'' then
        (if aim = ''better'' then
           bind_e (forward_selection_rows (combination_search_forward_selection_min model n)
                     0 (cells Xs) ys (np_zeros2 rows n))
             (\<lambda>B. Inr (s4\<lparr>self_y_better := Some B\<rparr>))
         else
           bind_e (forward_selection_rows (combination_search_forward_selection_max model n)
                     0 (cells Xs) ys (np_zeros2 rows n))
             (\<lambda>W. Inr (s4\<lparr>self_y_worst := Some W\<rparr>)))
      else
        (case self_combinations s4 of
           None \<Rightarrow> Inl AttributeError
         | Some C \<Rightarrow>
             bind_e (scan_losses model (cells Xs) ys rows C) (\<lambda>(W, B).
               Inr (s4\<lparr>self_y_worst := Some W, self_y_better := Some B\<rparr>))))"

text \<open>Lines 69 to 72: the fields set before the combinations are generated.\<close>

definition scan_setup :: "safe \<Rightarrow> ndarray2 \<Rightarrow> ndarray2 \<Rightarrow> safe" where
  "scan_setup s X Xs =
     s\<lparr>self_n_features := Some (ncols X), self_X := Some Xs,
       self_y_better := Some (np_zeros2 (length (cells X)) (ncols X)),
       self_y_worst := Some (np_zeros2 (length (cells X)) (ncols X))\<rparr>"

text \<open>
  \<open>scan\<close>, lines 47 to 98, for data and labels that are NumPy arrays already: the shape is
  read, the data subsampled when \<open>n_points\<close> is set, the fields are set, the combinations
  generated, and the search runs.
\<close>

definition scan ::
  "splitter \<Rightarrow> safe \<Rightarrow> keras_model \<Rightarrow> ndarray2 \<Rightarrow> real list \<Rightarrow> string \<Rightarrow> error + safe" where
  "scan tts s model X y aim =
     bind_e (scanned_data tts (s\<lparr>self_n_features := Some (ncols X)\<rparr>) X y) (\<lambda>(Xs, ys).
     bind_e (generate_combination (scan_setup s X Xs)) (\<lambda>s3.
       scan_modes model (ncols X) (length (cells X)) Xs ys aim
         (s3\<lparr>self_model := Some model, self_aim := Some aim\<rparr>)))"

section \<open>Learning the selection\<close>

text \<open>
  The \<open>KDTree\<close> of scikit-learn, with the Euclidean metric. Construction and query validate
  their input: an array without samples or without features, and a query of another
  dimension, raise \<open>ValueError\<close>. A query with \<open>k=1\<close> gives, for each query row, the
  position of a stored row at the least distance. Squared distances order the rows as the
  distances do; among rows at the same least distance the first one is taken here.
\<close>

definition dist2 :: "real list \<Rightarrow> real list \<Rightarrow> real" where
  "dist2 u v = sum_list (map2 (\<lambda>a b. (a - b) * (a - b)) u v)"

definition nearest_index :: "real list list \<Rightarrow> real list \<Rightarrow> nat" where
  "nearest_index T q =
     (case T of
        [] \<Rightarrow> 0
      | x # r \<Rightarrow> argmin_from 0 (dist2 x q) 1 (map (\<lambda>z. dist2 z q) r))"

definition KDTree_build :: "ndarray2 option \<Rightarrow> error + learner" where
  "KDTree_build X =
     (case X of
        None \<Rightarrow> Inl ValueError
      | Some A \<Rightarrow> if cells A = [] \<or> ncols A = 0 then Inl ValueError else Inr (KDTree A))"

definition KDTree_query :: "ndarray2 \<Rightarrow> ndarray2 \<Rightarrow> error + nat list" where
  "KDTree_query T data =
     (if cells data = [] \<or> ncols data \<noteq> ncols T then Inl ValueError
      else Inr (map (nearest_index (cells T)) (cells data)))"

text \<open>Python's truth value of \<open>self.aim\<close>: \<open>None\<close> and the empty string are false.\<close>

definition falsy :: "string option \<Rightarrow> bool" where
  "falsy a = (a = None \<or> a = Some [])"

text \<open>
  \<open>_ann\<close>, lines 247 to 260. Without a learner it calls \<open>Sequential\<close>, a name the module
  never imports: \<open>NameError\<close>. With a learner and \<open>train\<close> it calls the learner's \<open>fit\<close>,
  which a \<open>KDTree\<close> does not have.
\<close>

definition ann :: "safe \<Rightarrow> bool \<Rightarrow> error + safe" where
  "ann s train =
     (case self_learner s of
        None \<Rightarrow> Inl NameError
      | Some (KDTree T) \<Rightarrow> if train then Inl AttributeError else Inr s
      | Some (Keras p fit) \<Rightarrow>
          if train then
            (case (self_X s, self_y s) of
               (Some A, Some Y) \<Rightarrow>
                 bind_e (fit (cells A) Y) (\<lambda>p'. Inr (s\<lparr>self_learner := Some (Keras p' fit)\<rparr>))
             | _ \<Rightarrow> Inl ValueError)
          else Inr s)"

text \<open>\<open>learn\<close>, lines 100 to 132; the result is the new object and the returned learner.\<close>

definition learn ::
  "safe \<Rightarrow> string \<Rightarrow> string \<Rightarrow> learner option \<Rightarrow> bool \<Rightarrow> error + (safe \<times> learner option)" where
  "learn s algorithm aim learner train =
     (let a = (if falsy (self_aim s) then Some aim else self_aim s);
          s1 = s\<lparr>self_aim := a,
                 self_y := (if a = Some ''better'' then self_y_better s else self_y_worst s),
                 self_algorithm := Some algorithm,
                 self_learner := learner\<rparr>
      in
      bind_e (if algorithm = ''knn'' \<and> learner = None
              then bind_e (KDTree_build (self_X s1)) (\<lambda>t. Inr (s1\<lparr>self_learner := Some t\<rparr>))
              else Inr s1) (\<lambda>s2.
      bind_e (if algorithm = ''ann'' then ann s2 train else Inr s2) (\<lambda>s3.
        Inr (s3, self_learner s3))))"

section \<open>Selections\<close>

text \<open>\<open>ndarray.round\<close> rounds to the nearest integer, a half to the even neighbour.\<close>

definition np_round :: "real \<Rightarrow> real" where
  "np_round x =
     (let f = \<lfloor>x\<rfloor>; d = x - of_int f in
      if d < 1 / 2 then of_int f
      else if 1 / 2 < d then of_int f + 1
      else if even f then of_int f else of_int f + 1)"

text \<open>\<open>self.y[ind.flatten()]\<close>: the rows of \<open>Y\<close> at the given positions.\<close>

definition np_index_rows :: "real list list \<Rightarrow> nat list \<Rightarrow> error + real list list" where
  "np_index_rows Y ind = mapM_e (\<lambda>i. if i < length Y then Inr (Y ! i) else Inl IndexError) ind"

text \<open>
  \<open>get_selection\<close>, lines 134 to 148. With an algorithm that is neither \<open>knn\<close> nor \<open>ann\<close>
  the method falls through and returns \<open>None\<close>.
\<close>

definition get_selection :: "safe \<Rightarrow> ndarray2 \<Rightarrow> error + real list list option" where
  "get_selection s data =
     (if self_algorithm s = Some ''knn'' then
        (case self_learner s of
           Some (KDTree T) \<Rightarrow>
             bind_e (KDTree_query T data) (\<lambda>ind.
               case self_y s of
                 None \<Rightarrow> Inl TypeError
               | Some Y \<Rightarrow> bind_e (np_index_rows Y ind) (\<lambda>M. Inr (Some M)))
         | _ \<Rightarrow> Inl AttributeError)
      else if self_algorithm s = Some ''ann'' then
        (case self_learner s of
           Some (Keras p fit) \<Rightarrow> bind_e (p (cells data)) (\<lambda>out. Inr (Some (map (map np_round) out)))
         | _ \<Rightarrow> Inl AttributeError)
      else Inr None)"

text \<open>Elementwise product and difference of two arrays of the same shape.\<close>

definition np_multiply2 :: "real list list \<Rightarrow> real list list \<Rightarrow> error + real list list" where
  "np_multiply2 A B =
     (if map length A = map length B then Inr (map2 np_multiply A B) else Inl ValueError)"

definition np_subtract2 :: "real list list \<Rightarrow> real list list \<Rightarrow> error + real list list" where
  "np_subtract2 A B =
     (if map length A = map length B then Inr (map2 (map2 (-)) A B) else Inl ValueError)"

text \<open>\<open>clean_data\<close>, lines 184 to 195.\<close>

definition clean_data :: "safe \<Rightarrow> ndarray2 \<Rightarrow> error + real list list" where
  "clean_data s data =
     bind_e (get_selection s data) (\<lambda>sel.
       case sel of None \<Rightarrow> Inl TypeError | Some M \<Rightarrow> np_multiply2 (cells data) M)"

section \<open>Robustness\<close>

text \<open>
  \<open>get_robustness\<close>, lines 150 to 170. NumPy divides by zero without raising: the quotient
  is \<open>nan\<close> or an infinity. The mean over no rows is \<open>nan\<close> too.
\<close>

datatype npfloat = Fin real | NaN | PosInf | NegInf

definition np_mean0 :: "nat \<Rightarrow> real list list \<Rightarrow> npfloat list" where
  "np_mean0 w A =
     (if A = [] then replicate w NaN
      else map (\<lambda>j. Fin (sum_list (map (\<lambda>r. r ! j) A) / real (length A))) [0..<w])"

fun np_add :: "npfloat \<Rightarrow> npfloat \<Rightarrow> npfloat" where
  "np_add (Fin a) (Fin b) = Fin (a + b)"
| "np_add NaN _ = NaN"
| "np_add _ NaN = NaN"
| "np_add PosInf NegInf = NaN"
| "np_add NegInf PosInf = NaN"
| "np_add PosInf _ = PosInf"
| "np_add _ PosInf = PosInf"
| "np_add NegInf _ = NegInf"
| "np_add _ NegInf = NegInf"

definition np_sum :: "npfloat list \<Rightarrow> npfloat" where
  "np_sum xs = fold (\<lambda>x acc. np_add acc x) xs (Fin 0)"

text \<open>The quotient of a mean by the sum of the means, times 100.\<close>

fun np_percent :: "npfloat \<Rightarrow> npfloat \<Rightarrow> npfloat" where
  "np_percent (Fin a) (Fin b) =
     (if b = 0 then (if a = 0 then NaN else if 0 < a then PosInf else NegInf)
      else Fin (a / b * 100))"
| "np_percent _ _ = NaN"

definition robustness_of :: "nat \<Rightarrow> real list list \<Rightarrow> npfloat list" where
  "robustness_of w A = (let mean = np_mean0 w A in map (\<lambda>v. np_percent v (np_sum mean)) mean)"

text \<open>
  The number of columns of an array held as its rows: the length of a row, and for an array
  without rows the number of features of the object.
\<close>

definition width_of :: "safe \<Rightarrow> real list list \<Rightarrow> nat" where
  "width_of s A =
     (case A of
        [] \<Rightarrow> (case self_n_features s of None \<Rightarrow> 0 | Some n \<Rightarrow> n)
      | r # _ \<Rightarrow> length r)"

datatype robustness =
    Robustness "npfloat list"
  | Robustness_better_worst "npfloat list" "npfloat list"

definition get_robustness :: "safe \<Rightarrow> ndarray2 option \<Rightarrow> error + robustness" where
  "get_robustness s data =
     (case data of
        Some d \<Rightarrow>
          bind_e (get_selection s d) (\<lambda>sel.
            case sel of
              None \<Rightarrow> Inl TypeError
            | Some M \<Rightarrow> Inr (Robustness (robustness_of (width_of s M) M)))
      | None \<Rightarrow>
          (case (self_y_better s, self_y_worst s) of
             (Some B, Some W) \<Rightarrow>
               Inr (Robustness_better_worst (robustness_of (width_of s B) B)
                                            (robustness_of (width_of s W) W))
           | _ \<Rightarrow> Inl TypeError))"

section \<open>Accuracy, behaviour, candidates\<close>

text \<open>\<open>_get_clean\<close>, lines 262 to 264: the classes predicted for the data and for the
  cleaned data, in that order.\<close>

definition get_clean :: "safe \<Rightarrow> ndarray2 \<Rightarrow> error + (int list \<times> int list)" where
  "get_clean s data =
     (case self_model s of
        None \<Rightarrow> Inl AttributeError
      | Some m \<Rightarrow>
          bind_e (predict_classes m (cells data)) (\<lambda>original.
          bind_e (clean_data s data) (\<lambda>c.
          bind_e (predict_classes m c) (\<lambda>cleaned. Inr (original, cleaned)))))"

text \<open>
  The labels are a vector of classes or a two-dimensional array with one row per sample.
  \<open>np.argmax(labels, 1)\<close> raises \<open>AxisError\<close> on a vector.
\<close>

datatype labels = Labels1 "int list" | Labels2 "real list list"

definition np_argmax_axis1 :: "labels \<Rightarrow> error + labels" where
  "np_argmax_axis1 l =
     (case l of
        Labels1 v \<Rightarrow> Inl AxisError
      | Labels2 A \<Rightarrow> bind_e (mapM_e np_argmax A) (\<lambda>js. Inr (Labels1 (map int js))))"

text \<open>
  \<open>get_accuracy\<close> calls the global name \<open>accuracy_score\<close>. What the module's namespace
  holds under that name is a parameter: \<open>None\<close> when the name is not bound, which raises
  \<open>NameError\<close> when the call is reached. The module of the source imports \<open>itertools\<close>,
  \<open>KDTree\<close>, \<open>numpy\<close>, \<open>train_test_split\<close>, \<open>maximize\<close> and \<open>tqdm\<close> and nothing else:
  it does not bind the name.
\<close>

type_synonym accuracy_score = "labels \<Rightarrow> int list \<Rightarrow> error + real"

definition module_accuracy_score :: "accuracy_score option" where
  "module_accuracy_score = None"

datatype printed = Accuracy_before real | Accuracy_after real

text \<open>
  The body of the \<open>try\<close>, lines 280 and 281, and the handler, lines 284 and 285: what was
  printed, and whether an exception ended the block.
\<close>

definition accuracy_multiclass ::
  "accuracy_score option \<Rightarrow> labels \<Rightarrow> int list \<Rightarrow> int list \<Rightarrow> printed list \<times> (error + unit)" where
  "accuracy_multiclass g labels original cleaned =
     (case g of
        None \<Rightarrow> ([], Inl NameError)
      | Some acc \<Rightarrow>
          (case bind_e (np_argmax_axis1 labels) (\<lambda>a. acc a original) of
             Inl e \<Rightarrow> ([], Inl e)
           | Inr r1 \<Rightarrow>
               (case bind_e (np_argmax_axis1 labels) (\<lambda>a. acc a cleaned) of
                  Inl e \<Rightarrow> ([Accuracy_before r1], Inl e)
                | Inr r2 \<Rightarrow> ([Accuracy_before r1, Accuracy_after r2], Inr ()))))"

definition accuracy_binary ::
  "accuracy_score option \<Rightarrow> labels \<Rightarrow> int list \<Rightarrow> int list \<Rightarrow> printed list \<times> (error + unit)" where
  "accuracy_binary g labels original cleaned =
     (case g of
        None \<Rightarrow> ([], Inl NameError)
      | Some acc \<Rightarrow>
          (case acc labels original of
             Inl e \<Rightarrow> ([], Inl e)
           | Inr r1 \<Rightarrow>
               (case acc labels cleaned of
                  Inl e \<Rightarrow> ([Accuracy_before r1], Inl e)
                | Inr r2 \<Rightarrow> ([Accuracy_before r1, Accuracy_after r2], Inr ()))))"

text \<open>
  \<open>get_accuracy\<close>, lines 266 to 285: the object after the call, the lines printed, and
  the exception that escapes, if any. \<open>_get_clean\<close> runs before the \<open>try\<close>.
\<close>

definition get_accuracy_env ::
  "accuracy_score option \<Rightarrow> safe \<Rightarrow> ndarray2 \<Rightarrow> labels \<Rightarrow> safe \<times> printed list \<times> (error + unit)" where
  "get_accuracy_env g s data labels =
     (case get_clean s data of
        Inl e \<Rightarrow> (s, [], Inl e)
      | Inr (original, cleaned) \<Rightarrow>
          (case accuracy_multiclass g labels original cleaned of
             (out, Inr u) \<Rightarrow> (s, out, Inr u)
           | (out, Inl e) \<Rightarrow>
               (case accuracy_binary g labels original cleaned of
                  (out2, r) \<Rightarrow> (s, out @ out2, r))))"

definition get_accuracy :: "safe \<Rightarrow> ndarray2 \<Rightarrow> labels \<Rightarrow> safe \<times> printed list \<times> (error + unit)" where
  "get_accuracy = get_accuracy_env module_accuracy_score"

text \<open>\<open>get_behaviour\<close>, lines 287 to 298.\<close>

definition get_behaviour :: "safe \<Rightarrow> ndarray2 \<Rightarrow> error + (real list list \<times> real list list)" where
  "get_behaviour s data =
     (case self_model s of
        None \<Rightarrow> Inl AttributeError
      | Some m \<Rightarrow>
          bind_e (predict m (cells data)) (\<lambda>original.
          bind_e (clean_data s data) (\<lambda>c.
          bind_e (predict m c) (\<lambda>cleaned. Inr (original, cleaned)))))"

text \<open>
  The attributes of a \<open>SAFE\<close> object: the fields that \<open>__init__\<close> sets and the methods of
  the class, the private ones under their mangled names.
\<close>

definition SAFE_attributes :: "string list" where
  "SAFE_attributes =
     [''n_features'', ''combinations_mode'', ''algorithm'', ''combinations'', ''tree'', ''X'',
      ''y_better'', ''y_worst'', ''y'', ''aim'', ''model'', ''n_points'', ''random_state'',
      ''n_combinations'', ''learner'',
      ''__init__'', ''scan'', ''learn'', ''get_selection'', ''get_robustness'',
      ''_generate_combination'', ''clean_data'', ''_SAFE__combination_search_genetic'',
      ''_SAFE__combination_search_forward_selection_min'',
      ''_SAFE__combination_search_forward_selection_max'', ''_ann'', ''_get_clean'',
      ''get_accuracy'', ''get_behaviour'', ''get_candidates'']"

text \<open>
  Line 313 looks an attribute up, calls it with the data and unpacks the result into two
  arrays. Of the attributes of the object only \<open>get_behaviour\<close> fits that use.
\<close>

definition call_attribute ::
  "string \<Rightarrow> safe \<Rightarrow> ndarray2 \<Rightarrow> error + (real list list \<times> real list list)" where
  "call_attribute name s data =
     (if name = ''get_behaviour'' then get_behaviour s data else Inl TypeError)"

definition getattr_SAFE ::
  "string \<Rightarrow> error + (safe \<Rightarrow> ndarray2 \<Rightarrow> error + (real list list \<times> real list list))" where
  "getattr_SAFE name =
     (if name \<in> set SAFE_attributes then Inr (call_attribute name) else Inl AttributeError)"

text \<open>Line 315: the positions whose displacement reaches the threshold.\<close>

fun candidate_indices :: "real \<Rightarrow> nat \<Rightarrow> real list list \<Rightarrow> error + nat list" where
  "candidate_indices threshold j [] = Inr []"
| "candidate_indices threshold j (r # rs) =
     (case r of
        [v] \<Rightarrow>
          (case candidate_indices threshold (Suc j) rs of
             Inl e \<Rightarrow> Inl e
           | Inr js \<Rightarrow> Inr (if threshold \<le> v then j # js else js))
      | _ \<Rightarrow> Inl ValueError)"

definition get_candidates :: "safe \<Rightarrow> ndarray2 \<Rightarrow> real \<Rightarrow> error + nat list" where
  "get_candidates s data threshold =
     bind_e (getattr_SAFE ''behaviour'') (\<lambda>behaviour.
     bind_e (behaviour s data) (\<lambda>(original, cleaned).
     bind_e (np_subtract2 original cleaned) (candidate_indices threshold 0)))"

section \<open>Properties of masks\<close>


definition binary_row :: "real list \<Rightarrow> bool" where
  "binary_row r = list_all (\<lambda>v. v = 0 \<or> v = 1) r"

definition binary :: "real list list \<Rightarrow> bool" where
  "binary A = list_all binary_row A"

section \<open>Quantities the properties speak about\<close>

text \<open>
  The loss of sample \<open>i\<close> under the combination \<open>p\<close>:
  \<open>|model.predict(p * X)[i] - y[i]|\<close>.
\<close>

definition sample_loss ::
  "keras_model \<Rightarrow> real list list \<Rightarrow> real list \<Rightarrow> real list \<Rightarrow> nat \<Rightarrow> real" where
  "sample_loss m Xs ys p i =
     (case predict m (map (np_multiply p) Xs) of
        Inr out \<Rightarrow> \<bar>concat out ! i - ys ! i\<bar>
      | Inl e \<Rightarrow> 0)"

text \<open>The model answers every batch with one number per row of the batch.\<close>

definition scalar_model :: "keras_model \<Rightarrow> bool" where
  "scalar_model m = (\<forall>B. \<exists>out. predict m B = Inr out \<and> length (concat out) = length B)"

text \<open>Whenever the model answers a batch, it answers with one number per row of the batch.\<close>

definition one_output_per_row :: "keras_model \<Rightarrow> bool" where
  "one_output_per_row m = (\<forall>B out. predict m B = Inr out \<longrightarrow> length (concat out) = length B)"

text \<open>
  Position \<open>j\<close> is the first one among the first \<open>n\<close> at which \<open>f\<close> is greatest
  (\<open>first_argmax\<close>) or least (\<open>first_argmin\<close>).
\<close>

definition first_argmax :: "(nat \<Rightarrow> real) \<Rightarrow> nat \<Rightarrow> nat \<Rightarrow> bool" where
  "first_argmax f n j = (j < n \<and> (\<forall>k<n. f k \<le> f j) \<and> (\<forall>k<j. f k < f j))"

definition first_argmin :: "(nat \<Rightarrow> real) \<Rightarrow> nat \<Rightarrow> nat \<Rightarrow> bool" where
  "first_argmin f n j = (j < n \<and> (\<forall>k<n. f j \<le> f k) \<and> (\<forall>k<j. f j < f k))"

text \<open>The loss \<open>|model.predict([mask * data]) - label|\<close> of one masked sample, as a number.\<close>

definition mask_loss :: "keras_model \<Rightarrow> real list \<Rightarrow> real \<Rightarrow> real list \<Rightarrow> real" where
  "mask_loss m data label comb =
     (case masked_loss m data label comb of Inr [v] \<Rightarrow> v | _ \<Rightarrow> 0)"

text \<open>
  The instrumented search from the all-ones mask, as \<open>forward_selection\<close> starts the loop.
\<close>

definition forward_selection_run ::
  "bool \<Rightarrow> keras_model \<Rightarrow> nat \<Rightarrow> real list \<Rightarrow> real \<Rightarrow> error + (real list list \<times> nat)" where
  "forward_selection_run better m n data label =
     bind_e (masked_loss m data label (np_ones n)) (\<lambda>best_loss.
       forward_selection_trace better m data label n n (np_ones n) best_loss)"

text \<open>
  Loss \<open>a\<close> improves strictly on loss \<open>b\<close>: smaller in the min variant, larger in the max
  variant; and the same without strictness.
\<close>

definition improves :: "bool \<Rightarrow> real \<Rightarrow> real \<Rightarrow> bool" where
  "improves better a b = (if better then a < b else b < a)"

definition no_worse :: "bool \<Rightarrow> real \<Rightarrow> real \<Rightarrow> bool" where
  "no_worse better a b = (if better then a \<le> b else b \<le> a)"

text \<open>
  What the claim says of a run of the search with trace \<open>tr\<close> after \<open>its\<close> outer
  iterations: it starts from the all-ones mask, runs at most \<open>n\<close> iterations and changes
  the mask at most once in each; every change sets exactly one feature from 1 to 0 and
  improves the loss strictly; the last mask is binary and its loss is no worse than that of
  the all-ones mask.
\<close>

definition greedy_run ::
  "bool \<Rightarrow> keras_model \<Rightarrow> nat \<Rightarrow> real list \<Rightarrow> real \<Rightarrow> real list list \<Rightarrow> nat \<Rightarrow> bool" where
  "greedy_run better m n data label tr its =
     (tr \<noteq> [] \<and> hd tr = np_ones n \<and> its \<le> n \<and> length tr \<le> Suc its
      \<and> (\<forall>t. Suc t < length tr \<longrightarrow>
             (\<exists>i<n. tr ! t ! i = 1 \<and> tr ! Suc t = (tr ! t)[i := 0])
           \<and> improves better (mask_loss m data label (tr ! Suc t))
                              (mask_loss m data label (tr ! t)))
      \<and> length (last tr) = n \<and> binary_row (last tr)
      \<and> no_worse better (mask_loss m data label (last tr))
                         (mask_loss m data label (np_ones n)))"


section \<open>A small instance\<close>

text \<open>
  A model that predicts the sum of the features of a row, and the class 1 when that sum
  exceeds one half; two samples with the same single feature and different labels; a
  splitter that is never reached while \<open>n_points\<close> is \<open>None\<close>; an accuracy function that
  counts agreeing positions of two class vectors.
\<close>

definition example_model :: keras_model where
  "example_model =
     \<lparr> predict = (\<lambda>B. Inr (map (\<lambda>r. [sum_list r]) B)),
       predict_classes = (\<lambda>B. Inr (map (\<lambda>r. if 1 / 2 < sum_list r then 1 else 0) B)) \<rparr>"

definition example_X :: ndarray2 where
  "example_X = \<lparr> ncols = 1, cells = [[1], [1]] \<rparr>"

definition example_y :: "real list" where
  "example_y = [0, 1]"

definition example_query :: ndarray2 where
  "example_query = \<lparr> ncols = 1, cells = [[1]] \<rparr>"

definition no_split :: splitter where
  "no_split A y t r = Inl OtherError"

definition example_accuracy_score :: accuracy_score where
  "example_accuracy_score l p =
     (case l of
        Labels1 v \<Rightarrow>
          if length v = length p \<and> v \<noteq> []
          then Inr (real (length (filter (\<lambda>(a, b). a = b) (zip v p))) / real (length v))
          else Inl ValueError
      | Labels2 A \<Rightarrow> Inl ValueError)"

text \<open>The object after \<open>scan\<close> of the example in mode \<open>all\<close> and \<open>learn\<close> with \<open>knn\<close>.\<close>

definition example_scanned :: safe where
  "example_scanned =
     \<lparr> self_n_features = Some 1,
       self_combinations_mode = ''all'',
       self_algorithm = None,
       self_combinations = Some [[1], [0]],
       self_tree = None,
       self_X = Some example_X,
       self_y_better = Some [[0], [1]],
       self_y_worst = Some [[1], [0]],
       self_y = None,
       self_aim = Some ''worst'',
       self_model = Some example_model,
       self_n_points = None,
       self_random_state = None,
       self_n_combinations = 10,
       self_learner = None \<rparr>"

definition example_learned :: safe where
  "example_learned =
     example_scanned \<lparr> self_y := Some [[1], [0]], self_algorithm := Some ''knn'',
                       self_learner := Some (KDTree example_X) \<rparr>"

text \<open>A model that raises on every batch.\<close>

definition example_failing_model :: keras_model where
  "example_failing_model =
     \<lparr> predict = (\<lambda>B. Inl OtherError), predict_classes = (\<lambda>B. Inl OtherError) \<rparr>"

text \<open>
  A learner passed from outside whose predictions are not confined to the unit interval:
  it doubles every entry of the data. It has nothing to fit.
\<close>

definition example_doubling_learner :: learner where
  "example_doubling_learner =
     Keras (\<lambda>B. Inr (map (map (\<lambda>v. 2 * v)) B)) (\<lambda>A Y. Inl OtherError)"

text \<open>A learner passed from outside that halves every entry: its predictions on the
  example query lie in the unit interval.\<close>

definition example_halving_learner :: learner where
  "example_halving_learner =
     Keras (\<lambda>B. Inr (map (map (\<lambda>v. v / 2)) B)) (\<lambda>A Y. Inl OtherError)"

text \<open>Every prediction of the learner on the data lies between 0 and 1.\<close>

definition unit_interval :: "real list list \<Rightarrow> bool" where
  "unit_interval out = list_all (list_all (\<lambda>v. 0 \<le> v \<and> v \<le> 1)) out"

section \<open>Enumeration of the binary vectors\<close>

lemma length_product_repeat: "length (product_repeat pool n) = length pool ^ n"
proof (induction n)
  case 0
  show ?case by simp
next
  case (Suc n)
  have "length (concat (map (\<lambda>x. map (\<lambda>y. x @ [y]) pool) xs)) = length xs * length pool"
    for xs :: "'a list list"
    by (induction xs) simp_all
  with Suc show ?case by simp
qed

lemma set_product_repeat:
  "set (product_repeat pool n) = {v. length v = n \<and> set v \<subseteq> set pool}"
proof (induction n)
  case 0
  show ?case by auto
next
  case (Suc n)
  show ?case
  proof (rule set_eqI, rule iffI)
    fix v assume "v \<in> set (product_repeat pool (Suc n))"
    then obtain x y where "x \<in> set (product_repeat pool n)" "y \<in> set pool" "v = x @ [y]"
      by auto
    with Suc show "v \<in> {v. length v = Suc n \<and> set v \<subseteq> set pool}" by auto
  next
    fix v assume "v \<in> {v. length v = Suc n \<and> set v \<subseteq> set pool}"
    then have len: "length v = Suc n" and sub: "set v \<subseteq> set pool" by auto
    from len have "v \<noteq> []" by auto
    then have v: "v = butlast v @ [last v]" by simp
    have "length (butlast v) = n" using len by simp
    moreover have "set (butlast v) \<subseteq> set pool" using sub by (meson in_set_butlastD subsetD subsetI)
    ultimately have "butlast v \<in> set (product_repeat pool n)" using Suc by simp
    moreover have "last v \<in> set pool" using sub \<open>v \<noteq> []\<close> by auto
    ultimately have "butlast v @ [last v] \<in> set (product_repeat pool (Suc n))" by auto
    with v show "v \<in> set (product_repeat pool (Suc n))" by simp
  qed
qed

lemma distinct_product_repeat:
  "distinct pool \<Longrightarrow> distinct (product_repeat pool n)"
proof (induction n)
  case 0
  show ?case by simp
next
  case (Suc n)
  then have d: "distinct (product_repeat pool n)" by simp
  have "distinct (concat (map (\<lambda>x. map (\<lambda>y. x @ [y]) pool) xs))" if "distinct xs"
    for xs :: "'a list list"
    using that
  proof (induction xs)
    case Nil
    show ?case by simp
  next
    case (Cons a xs)
    have "distinct (map (\<lambda>y. a @ [y]) pool)"
      using \<open>distinct pool\<close> by (simp add: distinct_map inj_on_def)
    moreover have "set (map (\<lambda>y. a @ [y]) pool) \<inter> set (concat (map (\<lambda>x. map (\<lambda>y. x @ [y]) pool) xs)) = {}"
      using Cons.prems by auto
    ultimately show ?case using Cons by simp
  qed
  with d show ?case by simp
qed

lemma length_np_flip: "length (np_flip A) = length A"
  by (simp add: np_flip_def)

lemma distinct_np_flip: "distinct A \<Longrightarrow> distinct (np_flip A)"
  by (simp add: np_flip_def distinct_map inj_on_def)

lemma set_np_flip: "set (np_flip A) = rev ` set A"
  by (simp add: np_flip_def)

lemma rev_image_vectors:
  "rev ` {v. length v = n \<and> set v \<subseteq> S} = {v. length v = n \<and> set v \<subseteq> S}"
proof (rule set_eqI, rule iffI)
  fix v assume "v \<in> rev ` {v. length v = n \<and> set v \<subseteq> S}"
  then show "v \<in> {v. length v = n \<and> set v \<subseteq> S}" by auto
next
  fix v :: "'a list" assume "v \<in> {v. length v = n \<and> set v \<subseteq> S}"
  then have "rev v \<in> {v. length v = n \<and> set v \<subseteq> S}" by simp
  then have "rev (rev v) \<in> rev ` {v. length v = n \<and> set v \<subseteq> S}" by (rule imageI)
  then show "v \<in> rev ` {v. length v = n \<and> set v \<subseteq> S}" by simp
qed

lemma all_combinations_rows:
  "length (np_flip (product_repeat [0, 1::real] n)) = 2 ^ n"
  "distinct (np_flip (product_repeat [0, 1::real] n))"
  "set (np_flip (product_repeat [0, 1::real] n)) = {v. length v = n \<and> set v \<subseteq> {0, 1}}"
proof -
  show "length (np_flip (product_repeat [0, 1::real] n)) = 2 ^ n"
    by (simp add: length_np_flip length_product_repeat numeral_2_eq_2)
  show "distinct (np_flip (product_repeat [0, 1::real] n))"
    by (rule distinct_np_flip, rule distinct_product_repeat) simp
  have "set [0, 1::real] = {0, 1}" by auto
  then show "set (np_flip (product_repeat [0, 1::real] n)) = {v. length v = n \<and> set v \<subseteq> {0, 1}}"
    using rev_image_vectors [of n "{0, 1::real}"]
    by (simp add: set_np_flip set_product_repeat)
qed

text \<open>
  C2. In mode \<open>all\<close>, \<open>_generate_combination\<close> stores an array of \<open>2 ^ n_features\<close> rows,
  no two of them equal, whose rows are exactly the vectors of length \<open>n_features\<close> with
  entries 0 and 1: every binary vector occurs exactly once.
\<close>

theorem generate_combination_all:
  assumes "self_combinations_mode s = ''all''" and "self_n_features s = Some n"
  shows "\<exists>C. generate_combination s = Inr (s\<lparr>self_combinations := Some C\<rparr>)
           \<and> length C = 2 ^ n \<and> distinct C
           \<and> set C = {v. length v = n \<and> set v \<subseteq> {0, 1}}"
proof (intro exI conjI)
  show "generate_combination s
      = Inr (s\<lparr>self_combinations := Some (np_flip (product_repeat [0, 1] n))\<rparr>)"
    using assms by (simp add: generate_combination_def)
qed (rule all_combinations_rows)+

theorem generate_combination_all_witness:
  "generate_combination ((init ''all'' 10 None None)\<lparr>self_n_features := Some 2\<rparr>)
     = Inr ((init ''all'' 10 None None)
         \<lparr>self_n_features := Some 2, self_combinations := Some [[1, 1], [0, 1], [1, 0], [0, 0]]\<rparr>)
   \<and> (\<exists>C. generate_combination ((init ''all'' 10 None None)\<lparr>self_n_features := Some 2\<rparr>)
            = Inr ((init ''all'' 10 None None)\<lparr>self_n_features := Some 2, self_combinations := Some C\<rparr>)
          \<and> length C = 2 ^ 2 \<and> distinct C
          \<and> set C = {v. length v = 2 \<and> set v \<subseteq> {0, 1}})"
proof -
  have m: "self_combinations_mode ((init ''all'' 10 None None)\<lparr>self_n_features := Some 2\<rparr>) = ''all''"
    by (simp add: init_def)
  have n: "self_n_features ((init ''all'' 10 None None)\<lparr>self_n_features := Some 2\<rparr>) = Some 2"
    by simp
  have two: "(2::nat) = Suc (Suc 0)" by simp
  have "generate_combination ((init ''all'' 10 None None)\<lparr>self_n_features := Some 2\<rparr>)
     = Inr ((init ''all'' 10 None None)
         \<lparr>self_n_features := Some 2, self_combinations := Some [[1, 1], [0, 1], [1, 0], [0, 0]]\<rparr>)"
    by (simp add: generate_combination_def init_def np_flip_def two)
  with generate_combination_all [OF m n] show ?thesis by simp
qed

section \<open>The one-by-one combinations\<close>

lemma np_ones2_nth: "i \<le> n \<Longrightarrow> np_ones2 (Suc n) c ! i = np_ones c"
  unfolding np_ones2_def np_ones_def by (rule nth_replicate) simp

lemma length_np_ones2: "length (np_ones2 r c) = r"
  by (simp add: np_ones2_def)

lemma one_by_one_fold:
  assumes "k \<le> n" "1 \<le> k"
  shows "length (fold (\<lambda>i C. C[i := (C ! i)[i := 0]]) [1..<k] (np_ones2 (n + 1) n)) = n + 1
     \<and> (\<forall>i\<le>n. fold (\<lambda>i C. C[i := (C ! i)[i := 0]]) [1..<k] (np_ones2 (n + 1) n) ! i
           = (if 1 \<le> i \<and> i < k then (np_ones n)[i := 0] else np_ones n))"
  using assms
proof (induction k)
  case 0
  then show ?case by simp
next
  case (Suc k)
  show ?case
  proof (cases "k = 0")
    case True
    then show ?thesis by (simp add: np_ones2_nth length_np_ones2)
  next
    case False
    then have k: "1 \<le> k" "k \<le> n" using Suc.prems by auto
    have up: "[1..<Suc k] = [1..<k] @ [k]" using k by simp
    from Suc.IH [OF k(2) k(1)] show ?thesis
      unfolding up using Suc.prems k by (auto simp: nth_list_update)
  qed
qed

lemma one_by_one_rows:
  "length (one_by_one n) = n + 1"
  "i \<le> n \<Longrightarrow> one_by_one n ! i = (if 1 \<le> i \<and> i < n then (np_ones n)[i := 0] else np_ones n)"
proof -
  show "length (one_by_one n) = n + 1"
  proof (cases "n = 0")
    case True then show ?thesis by (simp add: one_by_one_def length_np_ones2)
  next
    case False then show ?thesis using one_by_one_fold [of n n] by (simp add: one_by_one_def)
  qed
  show "i \<le> n \<Longrightarrow> one_by_one n ! i = (if 1 \<le> i \<and> i < n then (np_ones n)[i := 0] else np_ones n)"
  proof (cases "n = 0")
    case True then show "i \<le> n \<Longrightarrow> ?thesis" by (simp add: one_by_one_def np_ones2_nth)
  next
    case False then show "i \<le> n \<Longrightarrow> ?thesis" using one_by_one_fold [of n n] by (simp add: one_by_one_def)
  qed
qed

lemma one_by_one_first_feature:
  assumes "r \<in> set (one_by_one n)" "0 < n" shows "r ! 0 = 1"
proof -
  from assms(1) obtain i where i: "i < length (one_by_one n)" "r = one_by_one n ! i"
    by (auto simp: in_set_conv_nth)
  then have "i \<le> n" by (simp add: one_by_one_rows)
  then show ?thesis using i assms(2) by (auto simp: one_by_one_rows np_ones_def)
qed

lemma one_by_one_duplicate:
  assumes "0 < n" shows "\<not> distinct (one_by_one n)"
proof
  assume d: "distinct (one_by_one n)"
  have "one_by_one n ! 0 = one_by_one n ! n" by (simp add: one_by_one_rows)
  moreover have "0 < length (one_by_one n)" "n < length (one_by_one n)" by (simp_all add: one_by_one_rows)
  ultimately have "0 = n" using d by (simp add: nth_eq_iff_index_eq)
  with assms show False by simp
qed

text \<open>
  C9, amended. In mode \<open>one-by-one\<close>, \<open>_generate_combination\<close> stores an array of
  \<open>n_features + 1\<close> rows; row \<open>i\<close> for \<open>1 \<le> i \<le> n_features - 1\<close> is the all-ones row with
  exactly feature \<open>i\<close> set to 0; row 0 and row \<open>n_features\<close> are all ones. No row zeroes
  feature 0, and with at least one feature the array holds the all-ones row twice.
\<close>

theorem generate_combination_one_by_one:
  assumes "self_combinations_mode s = ''one-by-one''" and "self_n_features s = Some n"
  shows "\<exists>C. generate_combination s = Inr (s\<lparr>self_combinations := Some C\<rparr>)
           \<and> length C = n + 1
           \<and> (\<forall>i. 1 \<le> i \<and> i < n \<longrightarrow> C ! i = (np_ones n)[i := 0])
           \<and> C ! 0 = np_ones n \<and> C ! n = np_ones n
           \<and> (\<forall>r\<in>set C. 0 < n \<longrightarrow> r ! 0 = 1)
           \<and> (0 < n \<longrightarrow> \<not> distinct C)"
proof (intro exI conjI)
  show "generate_combination s = Inr (s\<lparr>self_combinations := Some (one_by_one n)\<rparr>)"
    using assms by (simp add: generate_combination_def)
  show "length (one_by_one n) = n + 1" by (rule one_by_one_rows)
  show "\<forall>i. 1 \<le> i \<and> i < n \<longrightarrow> one_by_one n ! i = (np_ones n)[i := 0]"
    by (simp add: one_by_one_rows)
  show "one_by_one n ! 0 = np_ones n" by (simp add: one_by_one_rows)
  show "one_by_one n ! n = np_ones n" by (simp add: one_by_one_rows)
  show "\<forall>r\<in>set (one_by_one n). 0 < n \<longrightarrow> r ! 0 = 1"
    using one_by_one_first_feature by blast
  show "0 < n \<longrightarrow> \<not> distinct (one_by_one n)" using one_by_one_duplicate by blast
qed

theorem generate_combination_one_by_one_witness:
  "generate_combination ((init ''one-by-one'' 10 None None)\<lparr>self_n_features := Some 3\<rparr>)
     = Inr ((init ''one-by-one'' 10 None None)
         \<lparr>self_n_features := Some 3,
          self_combinations := Some [[1, 1, 1], [1, 0, 1], [1, 1, 0], [1, 1, 1]]\<rparr>)
   \<and> (\<exists>C. generate_combination ((init ''one-by-one'' 10 None None)\<lparr>self_n_features := Some 3\<rparr>)
            = Inr ((init ''one-by-one'' 10 None None)
                \<lparr>self_n_features := Some 3, self_combinations := Some C\<rparr>)
          \<and> length C = 4 \<and> C ! 1 = [1, 0, 1] \<and> C ! 2 = [1, 1, 0]
          \<and> C ! 0 = [1, 1, 1] \<and> C ! 3 = [1, 1, 1] \<and> \<not> distinct C)"
proof -
  have m: "self_combinations_mode ((init ''one-by-one'' 10 None None)\<lparr>self_n_features := Some 3\<rparr>)
             = ''one-by-one''"
    by (simp add: init_def)
  have n: "self_n_features ((init ''one-by-one'' 10 None None)\<lparr>self_n_features := Some 3\<rparr>) = Some 3"
    by simp
  have ev: "generate_combination ((init ''one-by-one'' 10 None None)\<lparr>self_n_features := Some 3\<rparr>)
     = Inr ((init ''one-by-one'' 10 None None)
         \<lparr>self_n_features := Some 3,
          self_combinations := Some [[1, 1, 1], [1, 0, 1], [1, 1, 0], [1, 1, 1]]\<rparr>)"
    by (simp add: generate_combination_def init_def one_by_one_def np_ones2_def upt_rec
        numeral_3_eq_3)
  have d: "\<not> distinct [[1, 1, 1], [1, 0, 1], [1, 1, 0], [1, 1, 1::real]]" by simp
  from generate_combination_one_by_one [OF m n] ev d show ?thesis
    by (intro conjI exI [of _ "[[1, 1, 1], [1, 0, 1], [1, 1, 0], [1, 1, 1]]"]) simp_all
qed

text \<open>
  With no feature the array has the single row of length 0: the claim's two duplicate
  rows are not there.
\<close>

theorem generate_combination_one_by_one_no_feature:
  "generate_combination ((init ''one-by-one'' 10 None None)\<lparr>self_n_features := Some 0\<rparr>)
     = Inr ((init ''one-by-one'' 10 None None)
         \<lparr>self_n_features := Some 0, self_combinations := Some [[]]\<rparr>)
   \<and> length [[]::real list] = 1 \<and> distinct [[]::real list]"
  by (simp add: generate_combination_def init_def one_by_one_def np_ones2_def)

section \<open>get_candidates\<close>

text \<open>
  C8. For every object, data and threshold, \<open>get_candidates\<close> raises \<open>AttributeError\<close>
  and yields no result: it looks up the attribute \<open>behaviour\<close>, and the attributes of a
  \<open>SAFE\<close> object hold \<open>get_behaviour\<close> but not \<open>behaviour\<close>.
\<close>

theorem get_candidates_raises:
  "get_candidates s data threshold = Inl AttributeError
   \<and> ''get_behaviour'' \<in> set SAFE_attributes \<and> ''behaviour'' \<notin> set SAFE_attributes"
  by (simp add: get_candidates_def getattr_SAFE_def SAFE_attributes_def bind_e_def)

section \<open>Evaluation of the small instance\<close>

lemma scan_example:
  "scan tts (init ''all'' 10 None None) example_model example_X example_y ''worst''
     = Inr example_scanned"
  by (simp add: scan_def scan_modes_def scan_setup_def init_def example_model_def example_X_def
      example_y_def example_scanned_def scanned_data_def bind_e_def generate_combination_def np_flip_def
      np_zeros2_def scan_losses_def loss_column_def np_abs_sub_def assign_column_def
      np_multiply_def loss_row_def np_argmax_def np_argmin_def Let_def numeral_2_eq_2)

lemma learn_example:
  "learn example_scanned ''knn'' ''worst'' None False
     = Inr (example_learned, Some (KDTree example_X))"
  by (simp add: learn_def example_scanned_def example_learned_def falsy_def KDTree_build_def
      bind_e_def example_X_def Let_def)

lemma get_selection_example:
  "get_selection example_learned example_query = Inr (Some [[1]])"
  by (simp add: get_selection_def example_learned_def example_scanned_def example_query_def
      example_X_def KDTree_query_def nearest_index_def dist2_def bind_e_def np_index_rows_def)

lemma clean_data_example:
  "clean_data example_learned example_query = Inr [[1]]"
  unfolding clean_data_def get_selection_example
  by (simp add: bind_e_def np_multiply2_def np_multiply_def example_query_def)

lemma get_clean_example:
  "get_clean example_learned example_query = Inr ([1], [1])"
proof -
  have m: "self_model example_learned = Some example_model"
    by (simp add: example_learned_def example_scanned_def)
  show ?thesis
    unfolding get_clean_def m clean_data_example
    by (simp add: bind_e_def example_model_def example_query_def)
qed

section \<open>get_accuracy\<close>

lemma get_accuracy_unbound:
  "get_accuracy s data labels
     = (s, [], Inl (case get_clean s data of Inl e \<Rightarrow> e | Inr p \<Rightarrow> NameError))"
  by (simp add: get_accuracy_def get_accuracy_env_def module_accuracy_score_def
      accuracy_multiclass_def accuracy_binary_def split: sum.splits prod.splits)

text \<open>
  C6 says that \<open>get_accuracy\<close> computes the model's accuracy on the original and on the
  cleaned data and reports both. In the module as it is written the name
  \<open>accuracy_score\<close> is not bound: on the scanned example the call prints nothing and ends
  in \<open>NameError\<close>, raised a second time by the handler. With the name bound to an
  accuracy function the same call reports both values.
\<close>

theorem get_accuracy_example_raises:
  "get_accuracy example_learned example_query (Labels1 [1]) = (example_learned, [], Inl NameError)
   \<and> get_accuracy_env (Some example_accuracy_score) example_learned example_query (Labels1 [1])
       = (example_learned, [Accuracy_before 1, Accuracy_after 1], Inr ())"
  by (simp add: get_accuracy_def get_accuracy_env_def module_accuracy_score_def
      accuracy_multiclass_def accuracy_binary_def get_clean_example np_argmax_axis1_def
      bind_e_def example_accuracy_score_def)

lemma scanned_data_n_features:
  "scanned_data tts (s\<lparr>self_n_features := v\<rparr>) X y = scanned_data tts s X y"
  by (simp add: scanned_data_def split: option.splits)

section \<open>Sequencing\<close>

lemma mapM_e_Inr:
  "mapM_e f xs = Inr ys \<Longrightarrow> length ys = length xs \<and> (\<forall>i<length xs. f (xs ! i) = Inr (ys ! i))"
proof (induction xs arbitrary: ys)
  case Nil
  then show ?case by simp
next
  case (Cons x xs)
  from Cons.prems obtain v vs where v: "f x = Inr v" "mapM_e f xs = Inr vs" "ys = v # vs"
    by (auto split: sum.splits)
  from Cons.IH [OF v(2)] v show ?case by (auto simp: nth_Cons split: nat.splits)
qed

lemma mapM_e_pure: "mapM_e (\<lambda>x. Inr (g x)) xs = Inr (map g xs)"
  by (induction xs) simp_all

lemma mapM_e_cong: "(\<And>x. x \<in> set xs \<Longrightarrow> f x = g x) \<Longrightarrow> mapM_e f xs = mapM_e g xs"
  by (induction xs) (simp_all split: sum.splits)

section \<open>argmax and argmin\<close>

lemma argmax_from_spec:
  "bi < i \<Longrightarrow>
     (argmax_from bi bv i xs = bi \<and> (\<forall>k<length xs. xs ! k \<le> bv))
   \<or> (i \<le> argmax_from bi bv i xs \<and> argmax_from bi bv i xs - i < length xs
        \<and> bv < xs ! (argmax_from bi bv i xs - i)
        \<and> (\<forall>k<length xs. xs ! k \<le> xs ! (argmax_from bi bv i xs - i))
        \<and> (\<forall>k<argmax_from bi bv i xs - i. xs ! k < xs ! (argmax_from bi bv i xs - i)))"
proof (induction xs arbitrary: bi bv i)
  case Nil
  then show ?case by simp
next
  case (Cons x xs)
  show ?case
  proof (cases "bv < x")
    case True
    let ?j = "argmax_from i x (Suc i) xs"
    have eq: "argmax_from bi bv i (x # xs) = ?j" using True by simp
    from Cons.IH [of i "Suc i" x] consider
      (a) "?j = i" "\<forall>k<length xs. xs ! k \<le> x"
      | (b) "Suc i \<le> ?j" "?j - Suc i < length xs" "x < xs ! (?j - Suc i)"
            "\<forall>k<length xs. xs ! k \<le> xs ! (?j - Suc i)"
            "\<forall>k<?j - Suc i. xs ! k < xs ! (?j - Suc i)"
      by auto
    then show ?thesis
    proof cases
      case a
      then show ?thesis unfolding eq using True Cons.prems
        by (auto simp: nth_Cons split: nat.splits)
    next
      case b
      then have d: "?j - i = Suc (?j - Suc i)" by simp
      have "\<forall>k<length (x # xs). (x # xs) ! k \<le> xs ! (?j - Suc i)"
        using b by (auto simp: nth_Cons split: nat.splits)
      moreover have "\<forall>k<Suc (?j - Suc i). (x # xs) ! k < xs ! (?j - Suc i)"
        using b by (auto simp: nth_Cons split: nat.splits)
      moreover have "bv < xs ! (?j - Suc i)" using True b by simp
      ultimately show ?thesis unfolding eq d using b by simp
    qed
  next
    case False
    let ?j = "argmax_from bi bv (Suc i) xs"
    have eq: "argmax_from bi bv i (x # xs) = ?j" using False by simp
    have "bi < Suc i" using Cons.prems by simp
    from Cons.IH [OF this, of bv] consider
      (a) "?j = bi" "\<forall>k<length xs. xs ! k \<le> bv"
      | (b) "Suc i \<le> ?j" "?j - Suc i < length xs" "bv < xs ! (?j - Suc i)"
            "\<forall>k<length xs. xs ! k \<le> xs ! (?j - Suc i)"
            "\<forall>k<?j - Suc i. xs ! k < xs ! (?j - Suc i)"
      by auto
    then show ?thesis
    proof cases
      case a
      then show ?thesis unfolding eq using False
        by (auto simp: nth_Cons split: nat.splits)
    next
      case b
      then have d: "?j - i = Suc (?j - Suc i)" by simp
      have x: "x < xs ! (?j - Suc i)" using False b by simp
      have "\<forall>k<length (x # xs). (x # xs) ! k \<le> xs ! (?j - Suc i)"
        using b x by (auto simp: nth_Cons split: nat.splits)
      moreover have "\<forall>k<Suc (?j - Suc i). (x # xs) ! k < xs ! (?j - Suc i)"
        using b x by (auto simp: nth_Cons split: nat.splits)
      ultimately show ?thesis unfolding eq d using b by simp
    qed
  qed
qed

lemma np_argmax_first:
  assumes "np_argmax L = Inr j"
  shows "first_argmax (\<lambda>k. L ! k) (length L) j"
proof -
  from assms obtain x r where L: "L = x # r" and j: "j = argmax_from 0 x 1 r"
    by (auto simp: np_argmax_def split: list.splits)
  from argmax_from_spec [of 0 1 x r] consider
    (a) "j = 0" "\<forall>k<length r. r ! k \<le> x"
    | (b) "1 \<le> j" "j - 1 < length r" "x < r ! (j - 1)"
          "\<forall>k<length r. r ! k \<le> r ! (j - 1)" "\<forall>k<j - 1. r ! k < r ! (j - 1)"
    unfolding j by auto
  then show ?thesis
  proof cases
    case a
    then show ?thesis unfolding first_argmax_def L
      by (auto simp: nth_Cons split: nat.splits)
  next
    case b
    then obtain j' where j': "j = Suc j'" by (cases j) auto
    with b show ?thesis unfolding first_argmax_def L
      by (auto simp: nth_Cons less_Suc_eq_0_disj split: nat.splits)
  qed
qed

lemma argmin_from_neg:
  "argmin_from bi bv i xs = argmax_from bi (- bv) i (map uminus xs)"
  by (induction xs arbitrary: bi bv i) simp_all

lemma np_argmin_neg: "np_argmin L = np_argmax (map uminus L)"
  by (cases L) (simp_all add: np_argmin_def np_argmax_def argmin_from_neg)

lemma np_argmin_first:
  assumes "np_argmin L = Inr j"
  shows "first_argmin (\<lambda>k. L ! k) (length L) j"
proof -
  from assms have "first_argmax (\<lambda>k. map uminus L ! k) (length (map uminus L)) j"
    unfolding np_argmin_neg by (rule np_argmax_first)
  then show ?thesis unfolding first_argmax_def first_argmin_def by auto
qed

lemma np_argmax_total: "L \<noteq> [] \<Longrightarrow> \<exists>j. np_argmax L = Inr j"
  by (cases L) (simp_all add: np_argmax_def)

lemma np_argmin_total: "L \<noteq> [] \<Longrightarrow> \<exists>j. np_argmin L = Inr j"
  by (cases L) (simp_all add: np_argmin_def)

section \<open>The loss matrix of scan\<close>

lemma loss_column_nth:
  assumes col: "loss_column m Xs ys rows p = Inr col"
    and m: "one_output_per_row m"
    and len: "length ys = length Xs"
  shows "length col = rows \<and> (length Xs = rows \<or> length Xs = 1)
       \<and> (\<forall>i<length Xs. i < rows \<longrightarrow> col ! i = sample_loss m Xs ys p i)"
proof -
  from col obtain out where out: "predict m (map (np_multiply p) Xs) = Inr out"
    by (auto simp: loss_column_def bind_e_def split: sum.splits)
  with m have lo: "length (concat out) = length Xs"
    unfolding one_output_per_row_def by fastforce
  let ?v = "map2 (\<lambda>u v. \<bar>u - v\<bar>) (concat out) ys"
  have v: "np_abs_sub (concat out) ys = Inr ?v" using lo len by (simp add: np_abs_sub_def)
  have lv: "length ?v = length Xs" using lo len by simp
  from col out v have a: "assign_column rows ?v = Inr col"
    by (simp add: loss_column_def bind_e_def)
  have nth: "\<forall>i<length Xs. ?v ! i = sample_loss m Xs ys p i"
    using lo len out by (simp add: sample_loss_def)
  show ?thesis
  proof (cases "length ?v = rows")
    case True
    with a have "col = ?v" by (simp add: assign_column_def)
    with True lv nth show ?thesis by simp
  next
    case False
    with a have one: "length ?v = 1" and c: "col = replicate rows (hd ?v)"
      by (auto simp: assign_column_def split: if_splits)
    from one have hd: "hd ?v = ?v ! 0" by (cases ?v) simp_all
    from one lv have l1: "length Xs = 1" by simp
    have "col ! i = sample_loss m Xs ys p i" if "i < length Xs" "i < rows" for i
    proof -
      from that l1 have "i = 0" by simp
      moreover have "?v ! 0 = sample_loss m Xs ys p 0" using nth l1 by simp
      ultimately show ?thesis using c hd that by simp
    qed
    moreover have "length col = rows" using c by simp
    ultimately show ?thesis using l1 by blast
  qed
qed

lemma scan_losses_Inr:
  assumes "scan_losses m Xs ys rows C = Inr (W, B)"
  shows "\<exists>cols. mapM_e (loss_column m Xs ys rows) C = Inr cols
           \<and> length W = rows \<and> length B = rows
           \<and> (\<forall>i<rows. \<exists>jw jb. np_argmax (loss_row cols i) = Inr jw \<and> W ! i = C ! jw
                            \<and> np_argmin (loss_row cols i) = Inr jb \<and> B ! i = C ! jb)"
proof -
  from assms obtain cols worst better where
    cols: "mapM_e (loss_column m Xs ys rows) C = Inr cols"
    and w: "mapM_e (\<lambda>i. np_argmax (loss_row cols i)) [0..<rows] = Inr worst"
    and b: "mapM_e (\<lambda>i. np_argmin (loss_row cols i)) [0..<rows] = Inr better"
    and W: "W = map (\<lambda>j. C ! j) worst" and B: "B = map (\<lambda>j. C ! j) better"
    by (auto simp: scan_losses_def bind_e_def split: sum.splits)
  from mapM_e_Inr [OF w] have lw: "length worst = rows"
    and nw: "\<forall>i<rows. np_argmax (loss_row cols i) = Inr (worst ! i)" by simp_all
  from mapM_e_Inr [OF b] have lb: "length better = rows"
    and nb: "\<forall>i<rows. np_argmin (loss_row cols i) = Inr (better ! i)" by simp_all
  show ?thesis using cols lw lb nw nb W B by simp
qed

lemma scan_losses_extreme:
  assumes ret: "scan_losses m Xs ys rows C = Inr (W, B)"
    and m: "one_output_per_row m"
    and len: "length ys = length Xs"
    and i: "i < length Xs" "i < rows"
  shows "\<exists>jw jb. W ! i = C ! jw \<and> first_argmax (\<lambda>k. sample_loss m Xs ys (C ! k) i) (length C) jw
               \<and> B ! i = C ! jb \<and> first_argmin (\<lambda>k. sample_loss m Xs ys (C ! k) i) (length C) jb"
proof -
  from scan_losses_Inr [OF ret] i(2) obtain cols jw jb where
    cols: "mapM_e (loss_column m Xs ys rows) C = Inr cols"
    and jw: "np_argmax (loss_row cols i) = Inr jw" "W ! i = C ! jw"
    and jb: "np_argmin (loss_row cols i) = Inr jb" "B ! i = C ! jb"
    by blast
  from mapM_e_Inr [OF cols] have lc: "length cols = length C"
    and nc: "\<forall>k<length C. loss_column m Xs ys rows (C ! k) = Inr (cols ! k)" by simp_all
  have row: "\<forall>k<length C. loss_row cols i ! k = sample_loss m Xs ys (C ! k) i"
  proof (intro allI impI)
    fix k assume k: "k < length C"
    with nc have "loss_column m Xs ys rows (C ! k) = Inr (cols ! k)" by simp
    from loss_column_nth [OF this m len] i
    have "cols ! k ! i = sample_loss m Xs ys (C ! k) i" by simp
    then show "loss_row cols i ! k = sample_loss m Xs ys (C ! k) i"
      using k lc by (simp add: loss_row_def)
  qed
  have lr: "length (loss_row cols i) = length C" using lc by (simp add: loss_row_def)
  from np_argmax_first [OF jw(1)] row lr
  have "first_argmax (\<lambda>k. sample_loss m Xs ys (C ! k) i) (length C) jw"
    unfolding first_argmax_def by auto
  moreover from np_argmin_first [OF jb(1)] row lr
  have "first_argmin (\<lambda>k. sample_loss m Xs ys (C ! k) i) (length C) jb"
    unfolding first_argmin_def by auto
  ultimately show ?thesis using jw(2) jb(2) by blast
qed

text \<open>A sample of the scanned data has a row in the loss matrix.\<close>

lemma scan_losses_rows:
  assumes ret: "scan_losses m Xs ys rows C = Inr (W, B)"
    and m: "one_output_per_row m"
    and len: "length ys = length Xs"
    and r: "length Xs = rows \<or> 0 < rows"
    and i: "i < length Xs"
  shows "i < rows"
proof (cases "length Xs = rows")
  case True
  with i show ?thesis by simp
next
  case False
  with r have pos: "0 < rows" by simp
  from scan_losses_Inr [OF ret] pos obtain cols jw where
    cols: "mapM_e (loss_column m Xs ys rows) C = Inr cols"
    and jw: "np_argmax (loss_row cols 0) = Inr jw"
    by blast
  from jw have "loss_row cols 0 \<noteq> []" by (auto simp: np_argmax_def)
  then have "cols \<noteq> []" by (auto simp: loss_row_def)
  with mapM_e_Inr [OF cols] have "0 < length C" by auto
  with mapM_e_Inr [OF cols] have "loss_column m Xs ys rows (C ! 0) = Inr (cols ! 0)" by blast
  from loss_column_nth [OF this m len] False have "length Xs = 1" by simp
  with i pos show ?thesis by simp
qed

section \<open>scan in the modes that build the loss matrix\<close>

lemma bind_e_Inr: "bind_e r f = Inr v \<Longrightarrow> \<exists>x. r = Inr x \<and> f x = Inr v"
  by (cases r) (simp_all add: bind_e_def)

lemma generate_combination_mode:
  "generate_combination s = Inr s' \<Longrightarrow> self_combinations_mode s' = self_combinations_mode s"
  by (auto simp: generate_combination_def Let_def split: if_splits option.splits)

lemma generate_combination_X:
  "generate_combination s = Inr s' \<Longrightarrow> self_X s' = self_X s"
  by (auto simp: generate_combination_def Let_def split: if_splits option.splits)

lemma scanned_data_rows:
  "scanned_data tts s X y = Inr (Xs, ys)
     \<Longrightarrow> length (cells Xs) = length (cells X) \<or> 0 < length (cells X)"
  by (auto simp: scanned_data_def split: option.splits if_splits)

lemma scan_Inr:
  assumes ret: "scan tts s m X y aim = Inr s'"
    and dat: "scanned_data tts s X y = Inr (Xs, ys)"
  shows "\<exists>s3. generate_combination (scan_setup s X Xs) = Inr s3
          \<and> scan_modes m (ncols X) (length (cells X)) Xs ys aim
               (s3\<lparr>self_model := Some m, self_aim := Some aim\<rparr>) = Inr s'"
proof -
  have d2: "scanned_data tts (s\<lparr>self_n_features := Some (ncols X)\<rparr>) X y = Inr (Xs, ys)"
    using dat by (simp add: scanned_data_n_features)
  from ret have "bind_e (generate_combination (scan_setup s X Xs)) (\<lambda>s3.
       scan_modes m (ncols X) (length (cells X)) Xs ys aim
         (s3\<lparr>self_model := Some m, self_aim := Some aim\<rparr>)) = Inr s'"
    unfolding scan_def d2 by (simp add: bind_e_def)
  from bind_e_Inr [OF this] show ?thesis .
qed

lemma scan_modes_matrix:
  assumes mode: "self_combinations_mode s4 \<noteq> ''genetic''"
      "self_combinations_mode s4 \<noteq> ''forward_selection''"
    and ret: "scan_modes m n rows Xs ys aim s4 = Inr s'"
  shows "\<exists>C W B. self_combinations s4 = Some C
           \<and> scan_losses m (cells Xs) ys rows C = Inr (W, B)
           \<and> s' = s4\<lparr>self_y_worst := Some W, self_y_better := Some B\<rparr>"
proof -
  from ret mode obtain C where C: "self_combinations s4 = Some C"
    by (cases "self_combinations s4") (simp_all add: scan_modes_def)
  with ret mode have "bind_e (scan_losses m (cells Xs) ys rows C) (\<lambda>(W, B).
               Inr (s4\<lparr>self_y_worst := Some W, self_y_better := Some B\<rparr>)) = Inr s'"
    by (simp add: scan_modes_def)
  from bind_e_Inr [OF this] obtain W B where
    "scan_losses m (cells Xs) ys rows C = Inr (W, B)"
    "s' = s4\<lparr>self_y_worst := Some W, self_y_better := Some B\<rparr>"
    by auto
  then show ?thesis using C by auto
qed

lemma scan_matrix_Inr:
  assumes mode: "self_combinations_mode s \<noteq> ''genetic''"
      "self_combinations_mode s \<noteq> ''forward_selection''"
    and ret: "scan tts s m X y aim = Inr s'"
    and dat: "scanned_data tts s X y = Inr (Xs, ys)"
  shows "\<exists>s3 C W B. generate_combination (scan_setup s X Xs) = Inr s3
           \<and> self_combinations s3 = Some C
           \<and> scan_losses m (cells Xs) ys (length (cells X)) C = Inr (W, B)
           \<and> self_combinations s' = Some C \<and> self_y_worst s' = Some W
           \<and> self_y_better s' = Some B \<and> self_X s' = Some Xs"
proof -
  from scan_Inr [OF ret dat] obtain s3 where
    g: "generate_combination (scan_setup s X Xs) = Inr s3"
    and sm: "scan_modes m (ncols X) (length (cells X)) Xs ys aim
               (s3\<lparr>self_model := Some m, self_aim := Some aim\<rparr>) = Inr s'"
    by auto
  have m3: "self_combinations_mode s3 = self_combinations_mode s"
    using generate_combination_mode [OF g] by (simp add: scan_setup_def)
  have x3: "self_X s3 = Some Xs"
    using generate_combination_X [OF g] by (simp add: scan_setup_def)
  have "self_combinations_mode (s3\<lparr>self_model := Some m, self_aim := Some aim\<rparr>) \<noteq> ''genetic''"
    "self_combinations_mode (s3\<lparr>self_model := Some m, self_aim := Some aim\<rparr>)
       \<noteq> ''forward_selection''"
    using mode m3 by simp_all
  from scan_modes_matrix [OF this sm] obtain C W B where
    C: "self_combinations (s3\<lparr>self_model := Some m, self_aim := Some aim\<rparr>) = Some C"
    and L: "scan_losses m (cells Xs) ys (length (cells X)) C = Inr (W, B)"
    and s': "s' = s3\<lparr>self_model := Some m, self_aim := Some aim\<rparr>
                    \<lparr>self_y_worst := Some W, self_y_better := Some B\<rparr>"
    by auto
  from C have C3: "self_combinations s3 = Some C" by simp
  have "self_combinations s' = Some C" "self_y_worst s' = Some W"
    "self_y_better s' = Some B" "self_X s' = Some Xs"
    unfolding s' using C3 x3 by simp_all
  with g C3 L show ?thesis by auto
qed

text \<open>
  C1. Take a call of \<open>scan\<close> in a mode other than \<open>genetic\<close> and
  \<open>forward_selection\<close> that returns, on scanned data \<open>Xs\<close> with one label per sample and
  a model that gives one prediction per sample. Then for every sample index \<open>i\<close>, row \<open>i\<close>
  of \<open>y_worst\<close> is the combination \<open>self.combinations[jw]\<close> where \<open>jw\<close> is the first
  position at which the loss \<open>|model.predict(p * X)[i] - y[i]|\<close> is greatest, and row \<open>i\<close>
  of \<open>y_better\<close> is the combination at the first position where that loss is least.
\<close>

theorem scan_selects_extreme_combinations:
  assumes mode: "self_combinations_mode s \<noteq> ''genetic''"
      "self_combinations_mode s \<noteq> ''forward_selection''"
    and ret: "scan tts s m X y aim = Inr s'"
    and dat: "scanned_data tts s X y = Inr (Xs, ys)"
    and m: "one_output_per_row m"
    and len: "length ys = length (cells Xs)"
    and i: "i < length (cells Xs)"
  shows "\<exists>C W B jw jb.
           self_X s' = Some Xs \<and> self_combinations s' = Some C
         \<and> self_y_worst s' = Some W \<and> self_y_better s' = Some B
         \<and> i < length W \<and> W ! i = C ! jw
         \<and> first_argmax (\<lambda>k. sample_loss m (cells Xs) ys (C ! k) i) (length C) jw
         \<and> i < length B \<and> B ! i = C ! jb
         \<and> first_argmin (\<lambda>k. sample_loss m (cells Xs) ys (C ! k) i) (length C) jb"
proof -
  from scan_matrix_Inr [OF mode ret dat] obtain C W B where
    f: "self_combinations s' = Some C" "self_y_worst s' = Some W" "self_y_better s' = Some B"
       "self_X s' = Some Xs"
    and L: "scan_losses m (cells Xs) ys (length (cells X)) C = Inr (W, B)"
    by auto
  from scan_losses_rows [OF L m len scanned_data_rows [OF dat] i]
  have ir: "i < length (cells X)" .
  from scan_losses_Inr [OF L] have lw: "length W = length (cells X)"
    and lb: "length B = length (cells X)" by auto
  from scan_losses_extreme [OF L m len i ir] obtain jw jb where
    "W ! i = C ! jw" "first_argmax (\<lambda>k. sample_loss m (cells Xs) ys (C ! k) i) (length C) jw"
    "B ! i = C ! jb" "first_argmin (\<lambda>k. sample_loss m (cells Xs) ys (C ! k) i) (length C) jb"
    by blast
  with f ir lw lb show ?thesis by auto
qed

lemma one_output_per_row_example: "one_output_per_row example_model"
proof -
  have "length (concat (map (\<lambda>r. [g r]) B)) = length B" for g :: "real list \<Rightarrow> real" and B
    by (induction B) simp_all
  then show ?thesis by (auto simp: one_output_per_row_def example_model_def)
qed

theorem scan_selects_extreme_combinations_witness:
  "scan no_split (init ''all'' 10 None None) example_model example_X example_y ''worst''
     = Inr example_scanned
   \<and> one_output_per_row example_model
   \<and> sample_loss example_model (cells example_X) example_y [1] 1 = 0
   \<and> sample_loss example_model (cells example_X) example_y [0] 1 = 1
   \<and> (\<exists>C W B jw jb.
         self_X example_scanned = Some example_X \<and> self_combinations example_scanned = Some C
       \<and> self_y_worst example_scanned = Some W \<and> self_y_better example_scanned = Some B
       \<and> 1 < length W \<and> W ! 1 = C ! jw
       \<and> first_argmax (\<lambda>k. sample_loss example_model (cells example_X) example_y (C ! k) 1)
            (length C) jw
       \<and> 1 < length B \<and> B ! 1 = C ! jb
       \<and> first_argmin (\<lambda>k. sample_loss example_model (cells example_X) example_y (C ! k) 1)
            (length C) jb)"
proof -
  have mode: "self_combinations_mode (init ''all'' 10 None None) \<noteq> ''genetic''"
    "self_combinations_mode (init ''all'' 10 None None) \<noteq> ''forward_selection''"
    by (simp_all add: init_def)
  have dat: "scanned_data no_split (init ''all'' 10 None None) example_X example_y
               = Inr (example_X, example_y)"
    by (simp add: scanned_data_def init_def)
  have len: "length example_y = length (cells example_X)"
    by (simp add: example_y_def example_X_def)
  have i: "1 < length (cells example_X)" by (simp add: example_X_def)
  have l: "sample_loss example_model (cells example_X) example_y [1] 1 = 0"
    "sample_loss example_model (cells example_X) example_y [0] 1 = 1"
    by (simp_all add: sample_loss_def example_model_def example_X_def example_y_def
        np_multiply_def)
  from scan_selects_extreme_combinations [OF mode scan_example dat one_output_per_row_example len i]
    scan_example [of no_split] one_output_per_row_example l
  show ?thesis by simp
qed

section \<open>Binary masks\<close>

lemma binary_all: "binary (np_flip (product_repeat [0, 1] n))"
proof -
  have "\<forall>r\<in>set (np_flip (product_repeat [0, 1::real] n)). set r \<subseteq> {0, 1}"
    using all_combinations_rows(3) [of n] by auto
  then show ?thesis by (auto simp: binary_def binary_row_def list_all_iff)
qed

lemma binary_row_ones: "binary_row (np_ones n)"
  by (simp add: binary_row_def np_ones_def list_all_iff)

lemma binary_row_update: "binary_row r \<Longrightarrow> binary_row (r[i := 0])"
  by (auto simp: binary_row_def list_all_iff dest!: set_update_subset_insert [THEN subsetD])

lemma binary_one_by_one: "binary (one_by_one n)"
proof -
  have "binary_row r" if "r \<in> set (one_by_one n)" for r
  proof -
    from that obtain i where i: "i < length (one_by_one n)" "r = one_by_one n ! i"
      by (auto simp: in_set_conv_nth)
    then have "i \<le> n" by (simp add: one_by_one_rows)
    then show ?thesis using i(2) by (simp add: one_by_one_rows binary_row_ones binary_row_update)
  qed
  then show ?thesis by (simp add: binary_def list_all_iff)
qed

lemma generate_combination_binary:
  assumes "self_combinations_mode s = ''all'' \<or> self_combinations_mode s = ''one-by-one''"
    and "generate_combination s = Inr s1"
  shows "\<exists>C. self_combinations s1 = Some C \<and> binary C"
  using assms
  by (auto simp: generate_combination_def binary_all binary_one_by_one split: option.splits)

lemma scan_losses_subset:
  assumes "scan_losses m Xs ys rows C = Inr (W, B)"
  shows "set W \<subseteq> set C \<and> set B \<subseteq> set C"
proof -
  from scan_losses_Inr [OF assms] obtain cols where
    cols: "mapM_e (loss_column m Xs ys rows) C = Inr cols"
    and lw: "length W = rows" and lb: "length B = rows"
    and ex: "\<forall>i<rows. \<exists>jw jb. np_argmax (loss_row cols i) = Inr jw \<and> W ! i = C ! jw
                            \<and> np_argmin (loss_row cols i) = Inr jb \<and> B ! i = C ! jb"
    by auto
  from mapM_e_Inr [OF cols] have lc: "length cols = length C" by simp
  have "W ! i \<in> set C \<and> B ! i \<in> set C" if "i < rows" for i
  proof -
    from ex that obtain jw jb where
      jw: "np_argmax (loss_row cols i) = Inr jw" "W ! i = C ! jw"
      and jb: "np_argmin (loss_row cols i) = Inr jb" "B ! i = C ! jb"
      by blast
    from np_argmax_first [OF jw(1)] have "jw < length C"
      by (simp add: first_argmax_def loss_row_def lc)
    moreover from np_argmin_first [OF jb(1)] have "jb < length C"
      by (simp add: first_argmin_def loss_row_def lc)
    ultimately show ?thesis using jw(2) jb(2) by simp
  qed
  then show ?thesis using lw lb by (auto simp: in_set_conv_nth)
qed

lemma binary_subset: "binary C \<Longrightarrow> set W \<subseteq> set C \<Longrightarrow> binary W"
  by (auto simp: binary_def list_all_iff)

lemma scan_Inr_data:
  "scan tts s m X y aim = Inr s' \<Longrightarrow> \<exists>Xs ys. scanned_data tts s X y = Inr (Xs, ys)"
  by (cases "scanned_data tts s X y")
     (auto simp: scan_def bind_e_def scanned_data_n_features)

lemma scan_binary:
  assumes mode: "self_combinations_mode s = ''all'' \<or> self_combinations_mode s = ''one-by-one''"
    and ret: "scan tts s m X y aim = Inr s2"
  shows "\<exists>W B. self_y_worst s2 = Some W \<and> self_y_better s2 = Some B \<and> binary W \<and> binary B"
proof -
  from scan_Inr_data [OF ret] obtain Xs ys where dat: "scanned_data tts s X y = Inr (Xs, ys)"
    by auto
  have m: "self_combinations_mode s \<noteq> ''genetic''"
    "self_combinations_mode s \<noteq> ''forward_selection''"
    using mode by auto
  from scan_matrix_Inr [OF m ret dat] obtain s3 C W B where
    g: "generate_combination (scan_setup s X Xs) = Inr s3"
    and C: "self_combinations s3 = Some C"
    and L: "scan_losses m (cells Xs) ys (length (cells X)) C = Inr (W, B)"
    and f: "self_y_worst s2 = Some W" "self_y_better s2 = Some B"
    by auto
  have "self_combinations_mode (scan_setup s X Xs) = ''all''
      \<or> self_combinations_mode (scan_setup s X Xs) = ''one-by-one''"
    using mode by (simp add: scan_setup_def)
  from generate_combination_binary [OF this g] C have "binary C" by simp
  with scan_losses_subset [OF L] have "binary W" "binary B"
    by (auto intro: binary_subset)
  with f show ?thesis by simp
qed

lemma np_index_rows_subset: "np_index_rows Y ind = Inr M \<Longrightarrow> set M \<subseteq> set Y"
proof -
  assume a: "np_index_rows Y ind = Inr M"
  from mapM_e_Inr [OF a [unfolded np_index_rows_def]]
  have l: "length M = length ind"
    and n: "\<forall>i<length ind. (if ind ! i < length Y then Inr (Y ! (ind ! i)) else Inl IndexError)
              = Inr (M ! i)"
    by simp_all
  have "M ! i \<in> set Y" if "i < length M" for i
  proof -
    from n that l have "(if ind ! i < length Y then Inr (Y ! (ind ! i)) else Inl IndexError)
              = Inr (M ! i)" by simp
    then have "ind ! i < length Y" "M ! i = Y ! (ind ! i)" by (auto split: if_splits)
    then show ?thesis by simp
  qed
  then show ?thesis by (auto simp: in_set_conv_nth)
qed

lemma get_selection_knn_rows:
  assumes "self_algorithm s = Some ''knn''" and "get_selection s data = Inr (Some M)"
  shows "\<exists>Y. self_y s = Some Y \<and> set M \<subseteq> set Y"
proof -
  from assms obtain T where T: "self_learner s = Some (KDTree T)"
    by (auto simp: get_selection_def split: option.splits learner.splits)
  from assms T obtain ind Y where "self_y s = Some Y" "np_index_rows Y ind = Inr M"
    by (auto simp: get_selection_def bind_e_def split: sum.splits option.splits)
  with np_index_rows_subset show ?thesis by blast
qed

lemma learn_knn_fields:
  assumes "learn s ''knn'' aim learner train = Inr (s3, l)"
  shows "self_algorithm s3 = Some ''knn''
       \<and> (self_y s3 = self_y_better s \<or> self_y s3 = self_y_worst s)
       \<and> self_X s3 = self_X s"
  using assms
  by (auto simp: learn_def Let_def bind_e_def split: if_splits sum.splits)

lemma np_round_unit: assumes "0 \<le> v" "v \<le> 1" shows "np_round v = 0 \<or> np_round v = 1"
proof (cases "v = 1")
  case True
  then show ?thesis by (simp add: np_round_def)
next
  case False
  with assms have "\<lfloor>v\<rfloor> = 0" by (simp add: floor_eq_iff)
  then show ?thesis by (simp add: np_round_def Let_def)
qed

lemma get_selection_ann_binary:
  assumes "self_algorithm s = Some ''ann''" and "self_learner s = Some (Keras p fit)"
    and "p (cells data) = Inr out" and "unit_interval out"
  shows "\<exists>M. get_selection s data = Inr (Some M) \<and> binary M"
proof -
  have "get_selection s data = Inr (Some (map (map np_round) out))"
    using assms by (simp add: get_selection_def bind_e_def)
  moreover have "binary (map (map np_round) out)"
    using assms(4) np_round_unit
    by (auto simp: binary_def binary_row_def unit_interval_def list_all_iff)
  ultimately show ?thesis by blast
qed

text \<open>
  Where the masks are binary. In the modes \<open>all\<close> and \<open>one-by-one\<close> every entry of
  \<open>self.combinations\<close> is 0 or 1; hence after \<open>scan\<close> every entry of \<open>y_worst\<close> and
  \<open>y_better\<close> is 0 or 1, and after \<open>learn\<close> with \<open>knn\<close> every array that
  \<open>get_selection\<close> returns has entries 0 and 1 only. In the \<open>ann\<close> branch
  \<open>get_selection\<close> returns the learner's predictions rounded, which are 0 and 1 when the
  predictions lie between 0 and 1.
\<close>

lemma masks_binary:
  "((self_combinations_mode s = ''all'' \<or> self_combinations_mode s = ''one-by-one'')
      \<and> generate_combination s = Inr s1
    \<longrightarrow> (\<exists>C. self_combinations s1 = Some C \<and> binary C))
 \<and> ((self_combinations_mode s = ''all'' \<or> self_combinations_mode s = ''one-by-one'')
      \<and> scan tts s m X y aim = Inr s2
    \<longrightarrow> (\<exists>W B. self_y_worst s2 = Some W \<and> self_y_better s2 = Some B \<and> binary W \<and> binary B))
 \<and> ((self_combinations_mode s = ''all'' \<or> self_combinations_mode s = ''one-by-one'')
      \<and> scan tts s m X y aim = Inr s2
      \<and> learn s2 ''knn'' aim' learner train = Inr (s3, l)
      \<and> get_selection s3 data = Inr (Some M)
    \<longrightarrow> binary M)
 \<and> (self_algorithm s4 = Some ''ann'' \<and> self_learner s4 = Some (Keras p fit)
      \<and> p (cells data) = Inr out
    \<longrightarrow> get_selection s4 data = Inr (Some (map (map np_round) out))
       \<and> (unit_interval out \<longrightarrow> binary (map (map np_round) out)))"
proof (intro conjI)
  show "(self_combinations_mode s = ''all'' \<or> self_combinations_mode s = ''one-by-one'')
     \<and> generate_combination s = Inr s1
   \<longrightarrow> (\<exists>C. self_combinations s1 = Some C \<and> binary C)"
    using generate_combination_binary by blast
  show "(self_combinations_mode s = ''all'' \<or> self_combinations_mode s = ''one-by-one'')
     \<and> scan tts s m X y aim = Inr s2
   \<longrightarrow> (\<exists>W B. self_y_worst s2 = Some W \<and> self_y_better s2 = Some B \<and> binary W \<and> binary B)"
    using scan_binary by blast
  show "(self_combinations_mode s = ''all'' \<or> self_combinations_mode s = ''one-by-one'')
     \<and> scan tts s m X y aim = Inr s2
     \<and> learn s2 ''knn'' aim' learner train = Inr (s3, l)
     \<and> get_selection s3 data = Inr (Some M)
   \<longrightarrow> binary M"
  proof (intro impI, elim conjE)
    assume mode: "self_combinations_mode s = ''all'' \<or> self_combinations_mode s = ''one-by-one''"
      and ret: "scan tts s m X y aim = Inr s2"
      and le: "learn s2 ''knn'' aim' learner train = Inr (s3, l)"
      and gs: "get_selection s3 data = Inr (Some M)"
    from scan_binary [OF mode ret] obtain W B where
      f: "self_y_worst s2 = Some W" "self_y_better s2 = Some B" "binary W" "binary B" by auto
    from learn_knn_fields [OF le] have a: "self_algorithm s3 = Some ''knn''"
      and y: "self_y s3 = self_y_better s2 \<or> self_y s3 = self_y_worst s2" by simp_all
    from get_selection_knn_rows [OF a gs] obtain Y where Y: "self_y s3 = Some Y" "set M \<subseteq> set Y"
      by auto
    from y Y f have "binary Y" by auto
    then show "binary M" using Y(2) by (rule binary_subset)
  qed
  show "self_algorithm s4 = Some ''ann'' \<and> self_learner s4 = Some (Keras p fit)
     \<and> p (cells data) = Inr out
   \<longrightarrow> get_selection s4 data = Inr (Some (map (map np_round) out))
       \<and> (unit_interval out \<longrightarrow> binary (map (map np_round) out))"
  proof (intro impI conjI)
    assume h: "self_algorithm s4 = Some ''ann'' \<and> self_learner s4 = Some (Keras p fit)
     \<and> p (cells data) = Inr out"
    then show "get_selection s4 data = Inr (Some (map (map np_round) out))"
      by (simp add: get_selection_def bind_e_def)
  next
    assume "unit_interval out"
    then show "binary (map (map np_round) out)"
      using np_round_unit
      by (auto simp: binary_def binary_row_def unit_interval_def list_all_iff)
  qed
qed

lemma learn_ann_example:
  "learn (init ''all'' 10 None None) ''ann'' ''worst'' (Some (Keras p fit)) False
     = Inr ((init ''all'' 10 None None)
              \<lparr>self_aim := Some ''worst'', self_algorithm := Some ''ann'',
               self_learner := Some (Keras p fit)\<rparr>,
            Some (Keras p fit))"
  by (simp add: learn_def init_def falsy_def ann_def bind_e_def Let_def)

text \<open>A learner with predictions in the unit interval: the selection is binary.\<close>

lemma get_selection_halving_example:
  "get_selection
        ((init ''all'' 10 None None)
           \<lparr>self_aim := Some ''worst'', self_algorithm := Some ''ann'',
            self_learner := Some example_halving_learner\<rparr>) example_query
       = Inr (Some [[0]])
   \<and> binary [[0]]"
  by (simp add: get_selection_def example_halving_learner_def example_query_def bind_e_def
      np_round_def binary_def binary_row_def)

text \<open>
  C3. Every mask the tool produces is meant to be binary: \<open>get_selection\<close> documents its
  result as a binary selection array, the \<open>knn\<close> branch returns rows of binary masks, and
  the \<open>ann\<close> branch rounds the learner's predictions. The rounding alone does not make the
  result binary: \<open>learn\<close> with \<open>ann\<close> accepts a learner passed from outside, and when that
  learner predicts 2 for the example query, \<open>get_selection\<close> returns the entry 2, which is
  neither 0 nor 1.
\<close>

theorem get_selection_ann_not_binary:
  "learn (init ''all'' 10 None None) ''ann'' ''worst'' (Some example_doubling_learner) False
     = Inr ((init ''all'' 10 None None)
              \<lparr>self_aim := Some ''worst'', self_algorithm := Some ''ann'',
               self_learner := Some example_doubling_learner\<rparr>,
            Some example_doubling_learner)
   \<and> get_selection
        ((init ''all'' 10 None None)
           \<lparr>self_aim := Some ''worst'', self_algorithm := Some ''ann'',
            self_learner := Some example_doubling_learner\<rparr>) example_query
       = Inr (Some [[2]])
   \<and> \<not> binary [[2]]"
proof -
  have "np_round 2 = 2" by (simp add: np_round_def)
  then show ?thesis
    by (simp add: example_doubling_learner_def learn_ann_example get_selection_def
        example_query_def bind_e_def binary_def binary_row_def)
qed

section \<open>Nearest-neighbour lookup\<close>

lemma dist2_nonneg: "0 \<le> dist2 u v"
  unfolding dist2_def by (rule sum_list_nonneg) auto

lemma dist2_self: "dist2 u u = 0"
  unfolding dist2_def by (induction u) simp_all

lemma dist2_zero: "length u = length v \<Longrightarrow> dist2 u v = 0 \<Longrightarrow> u = v"
proof (induction u v rule: list_induct2)
  case Nil
  then show ?case by simp
next
  case (Cons a u b v)
  have s: "dist2 (a # u) (b # v) = (a - b) * (a - b) + dist2 u v" by (simp add: dist2_def)
  have "0 \<le> (a - b) * (a - b)" by simp
  with Cons.prems s dist2_nonneg [of u v]
  have "(a - b) * (a - b) = 0" "dist2 u v = 0" by linarith+
  with Cons.IH show ?case by simp
qed

lemma nearest_index_argmin:
  "T \<noteq> [] \<Longrightarrow> np_argmin (map (\<lambda>z. dist2 z q) T) = Inr (nearest_index T q)"
  by (cases T) (simp_all add: np_argmin_def nearest_index_def)

lemma nearest_index_nearest:
  assumes "T \<noteq> []"
  shows "nearest_index T q < length T
       \<and> (\<forall>j<length T. dist2 (T ! nearest_index T q) q \<le> dist2 (T ! j) q)"
proof -
  from np_argmin_first [OF nearest_index_argmin [OF assms, of q]]
  show ?thesis by (auto simp: first_argmin_def)
qed

lemma np_index_rows_nth:
  assumes "np_index_rows Y ind = Inr M"
  shows "length M = length ind \<and> (\<forall>q<length ind. ind ! q < length Y \<and> M ! q = Y ! (ind ! q))"
proof -
  from mapM_e_Inr [OF assms [unfolded np_index_rows_def]]
  have l: "length M = length ind"
    and n: "\<forall>i<length ind. (if ind ! i < length Y then Inr (Y ! (ind ! i)) else Inl IndexError)
              = Inr (M ! i)"
    by simp_all
  have "ind ! q < length Y \<and> M ! q = Y ! (ind ! q)" if "q < length ind" for q
  proof -
    from n that have "(if ind ! q < length Y then Inr (Y ! (ind ! q)) else Inl IndexError)
              = Inr (M ! q)" by simp
    then show ?thesis by (auto split: if_splits)
  qed
  with l show ?thesis by simp
qed

lemma learn_knn_tree:
  assumes "learn s ''knn'' aim None train = Inr (s1, l)"
  shows "\<exists>A. self_X s = Some A \<and> self_X s1 = Some A \<and> cells A \<noteq> [] \<and> ncols A \<noteq> 0
           \<and> self_learner s1 = Some (KDTree A) \<and> l = Some (KDTree A)
           \<and> self_algorithm s1 = Some ''knn''
           \<and> self_y s1 = (if (if falsy (self_aim s) then Some aim else self_aim s) = Some ''better''
                          then self_y_better s else self_y_worst s)"
  using assms
  by (auto simp: learn_def Let_def bind_e_def KDTree_build_def
      split: if_splits sum.splits option.splits)

lemma get_selection_tree:
  assumes a: "self_algorithm s = Some ''knn''" and t: "self_learner s = Some (KDTree A)"
    and ne: "cells A \<noteq> []"
    and g: "get_selection s data = Inr (Some M)"
  shows "\<exists>Y. self_y s = Some Y \<and> length M = length (cells data)
           \<and> (\<forall>q<length (cells data).
                 nearest_index (cells A) (cells data ! q) < length Y
               \<and> M ! q = Y ! nearest_index (cells A) (cells data ! q))"
proof -
  from g a t have q: "KDTree_query A data = Inr (map (nearest_index (cells A)) (cells data))"
    by (auto simp: get_selection_def bind_e_def KDTree_query_def split: if_splits sum.splits)
  with g a t obtain Y where Y: "self_y s = Some Y"
    and i: "np_index_rows Y (map (nearest_index (cells A)) (cells data)) = Inr M"
    by (auto simp: get_selection_def bind_e_def split: option.splits sum.splits)
  from np_index_rows_nth [OF i] Y show ?thesis by simp
qed

text \<open>
  C5, amended. After \<open>learn\<close> with \<open>knn\<close> and no learner passed, \<open>get_selection\<close> is a
  nearest-neighbour lookup: for each query row it returns the stored mask \<open>self.y[k]\<close> of a
  scanned sample \<open>k\<close> of \<open>self.X\<close> that no other sample is nearer to. A query equal to a
  scanned sample is answered with the mask of a scanned sample equal to the query: the
  sample's own mask when no other scanned sample has the same features.
\<close>

theorem get_selection_nearest:
  assumes le: "learn s ''knn'' aim None train = Inr (s1, l)"
    and gs: "get_selection s1 data = Inr (Some M)"
    and wf: "wf_ndarray2 data" "\<forall>A. self_X s = Some A \<longrightarrow> wf_ndarray2 A"
  shows "\<exists>A Y. self_X s1 = Some A \<and> self_y s1 = Some Y \<and> l = Some (KDTree A)
           \<and> length M = length (cells data)
           \<and> (\<forall>q<length (cells data).
                \<exists>k<length (cells A). k < length Y \<and> M ! q = Y ! k
                  \<and> (\<forall>j<length (cells A).
                        dist2 (cells A ! k) (cells data ! q) \<le> dist2 (cells A ! j) (cells data ! q))
                  \<and> (\<forall>j<length (cells A). cells data ! q = cells A ! j
                        \<longrightarrow> cells A ! k = cells data ! q
                          \<and> ((\<forall>j'<length (cells A). cells A ! j' = cells A ! j \<longrightarrow> j' = j)
                               \<longrightarrow> M ! q = Y ! j)))"
proof -
  from learn_knn_tree [OF le] obtain A where
    A: "self_X s = Some A" "self_X s1 = Some A" "cells A \<noteq> []" "ncols A \<noteq> 0"
       "self_learner s1 = Some (KDTree A)" "l = Some (KDTree A)" "self_algorithm s1 = Some ''knn''"
    by auto
  from wf(2) A(1) have wfA: "wf_ndarray2 A" by simp
  from gs A have nc: "ncols data = ncols A"
    by (auto simp: get_selection_def bind_e_def KDTree_query_def split: if_splits)
  from get_selection_tree [OF A(7) A(5) A(3) gs] obtain Y where
    Y: "self_y s1 = Some Y" "length M = length (cells data)"
    and n: "\<forall>q<length (cells data).
                 nearest_index (cells A) (cells data ! q) < length Y
               \<and> M ! q = Y ! nearest_index (cells A) (cells data ! q)"
    by auto
  have main: "\<exists>k<length (cells A). k < length Y \<and> M ! q = Y ! k
                  \<and> (\<forall>j<length (cells A).
                        dist2 (cells A ! k) (cells data ! q) \<le> dist2 (cells A ! j) (cells data ! q))
                  \<and> (\<forall>j<length (cells A). cells data ! q = cells A ! j
                        \<longrightarrow> cells A ! k = cells data ! q
                          \<and> ((\<forall>j'<length (cells A). cells A ! j' = cells A ! j \<longrightarrow> j' = j)
                               \<longrightarrow> M ! q = Y ! j))"
    if q: "q < length (cells data)" for q
  proof -
    let ?k = "nearest_index (cells A) (cells data ! q)"
    from nearest_index_nearest [OF A(3), of "cells data ! q"]
    have k: "?k < length (cells A)"
      and near: "\<forall>j<length (cells A).
                   dist2 (cells A ! ?k) (cells data ! q) \<le> dist2 (cells A ! j) (cells data ! q)"
      by simp_all
    from n q have y: "?k < length Y" "M ! q = Y ! ?k" by simp_all
    have lq: "length (cells data ! q) = ncols A"
      using wf(1) q nc by (simp add: wf_ndarray2_def list_all_length)
    have lk: "length (cells A ! ?k) = ncols A"
      using wfA k by (simp add: wf_ndarray2_def list_all_length)
    have eq: "cells A ! ?k = cells data ! q" if j: "j < length (cells A)"
      and e: "cells data ! q = cells A ! j" for j
    proof -
      from near j have "dist2 (cells A ! ?k) (cells data ! q) \<le> dist2 (cells A ! j) (cells data ! q)"
        by blast
      also have "\<dots> = 0" unfolding e by (rule dist2_self)
      finally have "dist2 (cells A ! ?k) (cells data ! q) \<le> 0" .
      with dist2_nonneg [of "cells A ! ?k" "cells data ! q"]
      have "dist2 (cells A ! ?k) (cells data ! q) = 0" by simp
      with lq lk show ?thesis by (simp add: dist2_zero)
    qed
    have own: "M ! q = Y ! j" if j: "j < length (cells A)"
      and e: "cells data ! q = cells A ! j"
      and u: "\<forall>j'<length (cells A). cells A ! j' = cells A ! j \<longrightarrow> j' = j" for j
    proof -
      from eq [OF j e] e have "cells A ! ?k = cells A ! j" by simp
      with u k have "?k = j" by simp
      with y show ?thesis by simp
    qed
    show ?thesis using k y near eq own by blast
  qed
  show ?thesis using A(2) A(6) Y main by blast
qed

theorem get_selection_nearest_witness:
  "learn (example_scanned\<lparr>self_X := Some \<lparr>ncols = 1, cells = [[0], [2]]\<rparr>\<rparr>) ''knn'' ''worst''
       None False
     = Inr (example_scanned
              \<lparr>self_X := Some \<lparr>ncols = 1, cells = [[0], [2]]\<rparr>, self_y := Some [[1], [0]],
               self_algorithm := Some ''knn'',
               self_learner := Some (KDTree \<lparr>ncols = 1, cells = [[0], [2]]\<rparr>)\<rparr>,
            Some (KDTree \<lparr>ncols = 1, cells = [[0], [2]]\<rparr>))
   \<and> get_selection
         (example_scanned
              \<lparr>self_X := Some \<lparr>ncols = 1, cells = [[0], [2]]\<rparr>, self_y := Some [[1], [0]],
               self_algorithm := Some ''knn'',
               self_learner := Some (KDTree \<lparr>ncols = 1, cells = [[0], [2]]\<rparr>)\<rparr>)
         \<lparr>ncols = 1, cells = [[2]]\<rparr>
       = Inr (Some [[0]])
   \<and> wf_ndarray2 \<lparr>ncols = 1, cells = [[2]]\<rparr>
   \<and> wf_ndarray2 \<lparr>ncols = 1, cells = [[0], [2]]\<rparr>
   \<and> (\<exists>A Y. self_X (example_scanned
              \<lparr>self_X := Some \<lparr>ncols = 1, cells = [[0], [2]]\<rparr>, self_y := Some [[1], [0]],
               self_algorithm := Some ''knn'',
               self_learner := Some (KDTree \<lparr>ncols = 1, cells = [[0], [2]]\<rparr>)\<rparr>) = Some A
          \<and> self_y (example_scanned
              \<lparr>self_X := Some \<lparr>ncols = 1, cells = [[0], [2]]\<rparr>, self_y := Some [[1], [0]],
               self_algorithm := Some ''knn'',
               self_learner := Some (KDTree \<lparr>ncols = 1, cells = [[0], [2]]\<rparr>)\<rparr>) = Some Y
          \<and> Some (KDTree \<lparr>ncols = 1, cells = [[0], [2]]\<rparr>) = Some (KDTree A)
          \<and> length [[0::real]] = length (cells \<lparr>ncols = 1, cells = [[2]]\<rparr>)
          \<and> (\<forall>q<length (cells \<lparr>ncols = 1, cells = [[2]]\<rparr>).
                \<exists>k<length (cells A). k < length Y \<and> [[0]] ! q = Y ! k
                  \<and> (\<forall>j<length (cells A).
                        dist2 (cells A ! k) (cells \<lparr>ncols = 1, cells = [[2]]\<rparr> ! q)
                          \<le> dist2 (cells A ! j) (cells \<lparr>ncols = 1, cells = [[2]]\<rparr> ! q))
                  \<and> (\<forall>j<length (cells A). cells \<lparr>ncols = 1, cells = [[2]]\<rparr> ! q = cells A ! j
                        \<longrightarrow> cells A ! k = cells \<lparr>ncols = 1, cells = [[2]]\<rparr> ! q
                          \<and> ((\<forall>j'<length (cells A). cells A ! j' = cells A ! j \<longrightarrow> j' = j)
                               \<longrightarrow> [[0]] ! q = Y ! j))))"
proof -
  let ?A = "\<lparr>ncols = 1, cells = [[0], [2]]\<rparr> :: ndarray2"
  let ?s = "example_scanned\<lparr>self_X := Some ?A\<rparr>"
  let ?s1 = "example_scanned\<lparr>self_X := Some ?A, self_y := Some [[1], [0]],
               self_algorithm := Some ''knn'', self_learner := Some (KDTree ?A)\<rparr>"
  let ?d = "\<lparr>ncols = 1, cells = [[2]]\<rparr> :: ndarray2"
  have le: "learn ?s ''knn'' ''worst'' None False = Inr (?s1, Some (KDTree ?A))"
    by (simp add: learn_def example_scanned_def falsy_def KDTree_build_def bind_e_def Let_def)
  have gs: "get_selection ?s1 ?d = Inr (Some [[0]])"
    by (simp add: get_selection_def example_scanned_def KDTree_query_def nearest_index_def
        dist2_def bind_e_def np_index_rows_def)
  have wd: "wf_ndarray2 ?d" and wa: "wf_ndarray2 ?A" by (simp_all add: wf_ndarray2_def)
  have wf: "\<forall>A. self_X ?s = Some A \<longrightarrow> wf_ndarray2 A" using wa by simp
  show ?thesis
    by (intro conjI le gs wd wa get_selection_nearest [OF le gs wd wf])
qed

text \<open>
  The claim as stated fails when two scanned samples have the same features and different
  masks. In the example both samples equal the query; their masks are \<open>[1]\<close> and \<open>[0]\<close>;
  the lookup returns \<open>[1]\<close>, which is not the own mask of the second sample. Whichever of
  the two equally near samples a lookup picks, the other one does not get its own mask.
\<close>

theorem get_selection_duplicate_samples:
  "scan no_split (init ''all'' 10 None None) example_model example_X example_y ''worst''
     = Inr example_scanned
   \<and> learn example_scanned ''knn'' ''worst'' None False
       = Inr (example_learned, Some (KDTree example_X))
   \<and> self_y example_learned = Some [[1], [0]]
   \<and> cells example_X ! 0 = cells example_query ! 0
   \<and> cells example_X ! 1 = cells example_query ! 0
   \<and> get_selection example_learned example_query = Inr (Some [[1]])
   \<and> [[1], [0]] ! 1 \<noteq> [[1::real]] ! 0"
proof -
  have y: "self_y example_learned = Some [[1], [0]]" by (simp add: example_learned_def)
  have c: "cells example_X ! 0 = cells example_query ! 0"
    "cells example_X ! 1 = cells example_query ! 0"
    by (simp_all add: example_X_def example_query_def)
  have n: "[[1], [0]] ! 1 \<noteq> [[1::real]] ! 0" by simp
  show ?thesis
    by (intro conjI scan_example learn_example get_selection_example y c n)
qed

section \<open>Forward selection\<close>

lemma masked_loss_scalar:
  assumes "scalar_model m"
  shows "masked_loss m data label c = Inr [mask_loss m data label c]"
proof -
  from assms obtain out where out: "predict m [np_multiply data c] = Inr out"
    and "length (concat out) = length [np_multiply data c]"
    unfolding scalar_model_def by blast
  then obtain v where v: "concat out = [v]" by (cases "concat out") auto
  have "masked_loss m data label c = Inr [\<bar>v - label\<bar>]"
    using out v by (simp add: masked_loss_def bind_e_def)
  then show ?thesis by (simp add: mask_loss_def)
qed

lemma losses_scalar:
  assumes "scalar_model m"
  shows "mapM_e (masked_loss m data label) cs = Inr (map (\<lambda>c. [mask_loss m data label c]) cs)"
proof -
  have "mapM_e (masked_loss m data label) cs
          = mapM_e (\<lambda>c. Inr [mask_loss m data label c]) cs"
    by (rule mapM_e_cong) (rule masked_loss_scalar [OF assms])
  then show ?thesis by (simp add: mapM_e_pure)
qed

lemma cmp_loss_single: "cmp_loss better [a] [b] = Inr (improves better a b)"
  by (simp add: cmp_loss_def improves_def)

lemma extreme_from_single:
  "\<exists>e. extreme_from better [b] (map (\<lambda>v. [v]) vs) = Inr [e]
       \<and> e \<in> set (b # vs) \<and> (\<forall>v\<in>set (b # vs). no_worse better e v)"
proof (induction vs arbitrary: b)
  case Nil
  show ?case by (simp add: no_worse_def)
next
  case (Cons x vs)
  show ?case
  proof (cases "improves better x b")
    case True
    from Cons.IH [of x] obtain e where
      e: "extreme_from better [x] (map (\<lambda>v. [v]) vs) = Inr [e]" "e \<in> set (x # vs)"
         "\<forall>v\<in>set (x # vs). no_worse better e v" by blast
    from e(3) have "no_worse better e x" by simp
    with True have "no_worse better e b" by (auto simp: no_worse_def improves_def split: if_splits)
    with e True show ?thesis by (auto simp: cmp_loss_single)
  next
    case False
    from Cons.IH [of b] obtain e where
      e: "extreme_from better [b] (map (\<lambda>v. [v]) vs) = Inr [e]" "e \<in> set (b # vs)"
         "\<forall>v\<in>set (b # vs). no_worse better e v" by blast
    from e(3) have "no_worse better e b" by simp
    with False have "no_worse better e x" by (auto simp: no_worse_def improves_def split: if_splits)
    with e False show ?thesis by (auto simp: cmp_loss_single)
  qed
qed

lemma py_extreme_single:
  assumes "vs \<noteq> []"
  shows "\<exists>e. py_extreme better (map (\<lambda>v. [v]) vs) = Inr [e]
       \<and> e \<in> set vs \<and> (\<forall>v\<in>set vs. no_worse better e v)"
proof -
  from assms obtain b r where vs: "vs = b # r" by (cases vs) auto
  from extreme_from_single [of better b r] show ?thesis
    unfolding vs by (simp add: py_extreme_def)
qed

lemma index_from_member:
  "v \<in> set xs \<Longrightarrow> \<exists>j. index_from i xs v = Inr (i + j) \<and> j < length xs \<and> xs ! j = v"
proof (induction xs arbitrary: i)
  case Nil
  then show ?case by simp
next
  case (Cons x xs)
  show ?case
  proof (cases "x = v")
    case True
    then show ?thesis by (intro exI [of _ 0]) simp
  next
    case False
    with Cons.prems have "v \<in> set xs" by simp
    from Cons.IH [OF this, of "Suc i"] obtain j where
      "index_from (Suc i) xs v = Inr (Suc i + j)" "j < length xs" "xs ! j = v" by blast
    with False show ?thesis by (intro exI [of _ "Suc j"]) simp
  qed
qed

lemma candidates_nth:
  assumes "idx < length (candidates n best)"
  shows "\<exists>i<n. best ! i \<noteq> 0 \<and> candidates n best ! idx = best[i := 0]"
proof -
  let ?f = "filter (\<lambda>i. best ! i \<noteq> 0) [0..<n]"
  from assms have l: "idx < length ?f" by (simp add: candidates_def)
  then have "?f ! idx \<in> set ?f" by (rule nth_mem)
  then have "?f ! idx < n" "best ! (?f ! idx) \<noteq> 0" by auto
  moreover have "candidates n best ! idx = best[?f ! idx := 0]"
    using l by (simp add: candidates_def)
  ultimately show ?thesis by blast
qed

lemma length_candidates:
  "length (candidates n best) = card {i. i < n \<and> best ! i \<noteq> 0}"
proof -
  have "length (candidates n best) = length (filter (\<lambda>i. best ! i \<noteq> 0) [0..<n])"
    by (simp add: candidates_def)
  also have "\<dots> = card (set (filter (\<lambda>i. best ! i \<noteq> 0) [0..<n]))"
    by (rule distinct_card [symmetric]) simp
  also have "set (filter (\<lambda>i. best ! i \<noteq> 0) [0..<n]) = {i. i < n \<and> best ! i \<noteq> 0}"
    by auto
  finally show ?thesis .
qed

lemma length_candidates_update:
  assumes "length best = n" "i < n" "best ! i \<noteq> 0"
  shows "Suc (length (candidates n (best[i := 0]))) = length (candidates n best)"
proof -
  have eq: "{j. j < n \<and> best[i := 0] ! j \<noteq> 0} = {j. j < n \<and> best ! j \<noteq> 0} - {i}"
    using assms by (auto simp: nth_list_update)
  have "i \<in> {j. j < n \<and> best ! j \<noteq> 0}" using assms by simp
  moreover have "finite {j. j < n \<and> best ! j \<noteq> 0}" by simp
  ultimately have "Suc (card ({j. j < n \<and> best ! j \<noteq> 0} - {i}))
      = card {j. j < n \<and> best ! j \<noteq> 0}"
    by (rule card_Suc_Diff1 [rotated])
  then show ?thesis unfolding length_candidates eq .
qed

lemma length_candidates_ones: "length (candidates n (np_ones n)) = n"
proof -
  have "{i. i < n \<and> np_ones n ! i \<noteq> 0} = {..<n}" by (auto simp: np_ones_def)
  then show ?thesis unfolding length_candidates by simp
qed

lemma forward_selection_steps:
  assumes sm: "scalar_model m"
  shows "length best = n \<Longrightarrow> binary_row best \<Longrightarrow> k \<le> length (candidates n best) \<Longrightarrow>
    \<exists>tr its.
       forward_selection_trace better m data label n k best [mask_loss m data label best]
         = Inr (tr, its)
     \<and> forward_selection_loop better m data label n k best [mask_loss m data label best]
         = Inr (last tr)
     \<and> tr \<noteq> [] \<and> hd tr = best \<and> its \<le> k \<and> length tr \<le> Suc its
     \<and> (\<forall>t. Suc t < length tr \<longrightarrow>
            (\<exists>i<n. tr ! t ! i = 1 \<and> tr ! Suc t = (tr ! t)[i := 0])
          \<and> improves better (mask_loss m data label (tr ! Suc t))
                             (mask_loss m data label (tr ! t)))
     \<and> length (last tr) = n \<and> binary_row (last tr)
     \<and> no_worse better (mask_loss m data label (last tr)) (mask_loss m data label best)"
proof (induction k arbitrary: best)
  case 0
  show ?case
    by (intro exI [of _ "[best]"] exI [of _ 0]) (simp add: "0.prems" no_worse_def)
next
  case (Suc k)
  let ?L = "mask_loss m data label"
  let ?cs = "candidates n best"
  let ?LS = "map (\<lambda>c. [?L c]) ?cs"
  have ne: "map ?L ?cs \<noteq> []" using Suc.prems(3) by auto
  have l1: "mapM_e (masked_loss m data label) ?cs = Inr ?LS" by (rule losses_scalar [OF sm])
  have LS: "?LS = map (\<lambda>v. [v]) (map ?L ?cs)" by simp
  from py_extreme_single [OF ne, of better] obtain e where
    l2: "py_extreme better ?LS = Inr [e]" and em: "e \<in> set (map ?L ?cs)"
    unfolding LS by blast
  have l3: "cmp_loss better [e] [?L best] = Inr (improves better e (?L best))"
    by (rule cmp_loss_single)
  show ?case
  proof (cases "improves better e (?L best)")
    case False
    have t: "forward_selection_trace better m data label n (Suc k) best [?L best]
               = Inr ([best], 1)"
      using False by (simp add: l1 l2 l3)
    have l: "forward_selection_loop better m data label n (Suc k) best [?L best] = Inr best"
      using False by (simp add: l1 l2 l3)
    show ?thesis
      by (intro exI [of _ "[best]"] exI [of _ 1])
         (simp add: t l Suc.prems no_worse_def
            del: forward_selection_trace.simps forward_selection_loop.simps)
  next
    case True
    from em have "[e] \<in> set ?LS" by auto
    from index_from_member [OF this, of 0] obtain idx where
      l4: "index_from 0 ?LS [e] = Inr idx" and il: "idx < length ?cs" and ie: "?LS ! idx = [e]"
      by auto
    from ie il have le: "?L (?cs ! idx) = e" by simp
    from candidates_nth [OF il] obtain i where
      i: "i < n" "best ! i \<noteq> 0" and nx: "?cs ! idx = best[i := 0]" by blast
    let ?nx = "best[i := 0]"
    have b1: "best ! i = 1"
      using Suc.prems(1,2) i by (auto simp: binary_row_def list_all_length)
    have p1: "length ?nx = n" using Suc.prems(1) by simp
    have p2: "binary_row ?nx" using Suc.prems(2) by (rule binary_row_update)
    have p3: "k \<le> length (candidates n ?nx)"
      using length_candidates_update [OF Suc.prems(1) i] Suc.prems(3) by simp
    from Suc.IH [OF p1 p2 p3] obtain tr its where
      tr: "forward_selection_trace better m data label n k ?nx [?L ?nx] = Inr (tr, its)"
      and lp: "forward_selection_loop better m data label n k ?nx [?L ?nx] = Inr (last tr)"
      and ne': "tr \<noteq> []" and hd: "hd tr = ?nx" and its: "its \<le> k" and len: "length tr \<le> Suc its"
      and st: "\<forall>t. Suc t < length tr \<longrightarrow>
            (\<exists>i<n. tr ! t ! i = 1 \<and> tr ! Suc t = (tr ! t)[i := 0])
          \<and> improves better (?L (tr ! Suc t)) (?L (tr ! t))"
      and fin: "length (last tr) = n" "binary_row (last tr)"
      and nw: "no_worse better (?L (last tr)) (?L ?nx)"
      by blast
    have e': "?L ?nx = e" using le nx by simp
    have t: "forward_selection_trace better m data label n (Suc k) best [?L best]
               = Inr (best # tr, Suc its)"
      using True tr by (simp add: l1 l2 l3 l4 nx e')
    have l: "forward_selection_loop better m data label n (Suc k) best [?L best]
               = Inr (last tr)"
      using True lp by (simp add: l1 l2 l3 l4 nx e')
    have h0: "tr ! 0 = ?nx" using ne' hd by (simp add: hd_conv_nth)
    have steps: "(\<exists>i<n. (best # tr) ! t ! i = 1 \<and> (best # tr) ! Suc t = ((best # tr) ! t)[i := 0])
          \<and> improves better (?L ((best # tr) ! Suc t)) (?L ((best # tr) ! t))"
      if "Suc t < length (best # tr)" for t
    proof (cases t)
      case 0
      have "improves better (?L ?nx) (?L best)" using True e' by simp
      with i b1 h0 0 show ?thesis by auto
    next
      case (Suc t')
      with that have "Suc t' < length tr" by simp
      with st Suc show ?thesis by simp
    qed
    have nw': "no_worse better (?L (last tr)) (?L best)"
      using nw True e' by (auto simp: no_worse_def improves_def split: if_splits)
    show ?thesis
      using t l ne' its len steps fin nw'
      by (intro exI [of _ "best # tr"] exI [of _ "Suc its"])
         (simp del: forward_selection_trace.simps forward_selection_loop.simps)
  qed
qed

lemma forward_selection_greedy_run:
  assumes sm: "scalar_model m"
  shows "\<exists>tr its. forward_selection_run better m n data label = Inr (tr, its)
          \<and> forward_selection better m n data label = Inr (last tr)
          \<and> greedy_run better m n data label tr its"
proof -
  have p: "length (np_ones n) = n" "binary_row (np_ones n)"
    "n \<le> length (candidates n (np_ones n))"
    by (simp_all add: np_ones_def binary_row_ones [unfolded np_ones_def] length_candidates_ones [unfolded np_ones_def])
  from forward_selection_steps [OF sm p, of better data label] obtain tr its where
    tr: "forward_selection_trace better m data label n n (np_ones n)
           [mask_loss m data label (np_ones n)] = Inr (tr, its)"
       "forward_selection_loop better m data label n n (np_ones n)
           [mask_loss m data label (np_ones n)] = Inr (last tr)"
    and g: "tr \<noteq> []" "hd tr = np_ones n" "its \<le> n" "length tr \<le> Suc its"
       "\<forall>t. Suc t < length tr \<longrightarrow>
            (\<exists>i<n. tr ! t ! i = 1 \<and> tr ! Suc t = (tr ! t)[i := 0])
          \<and> improves better (mask_loss m data label (tr ! Suc t))
                             (mask_loss m data label (tr ! t))"
       "length (last tr) = n" "binary_row (last tr)"
       "no_worse better (mask_loss m data label (last tr)) (mask_loss m data label (np_ones n))"
    by blast
  have "forward_selection_run better m n data label = Inr (tr, its)"
    using tr(1) by (simp add: forward_selection_run_def masked_loss_scalar [OF sm] bind_e_def)
  moreover have "forward_selection better m n data label = Inr (last tr)"
    using tr(2) by (simp add: forward_selection_def masked_loss_scalar [OF sm] bind_e_def)
  moreover have "greedy_run better m n data label tr its"
    unfolding greedy_run_def using g by blast
  ultimately show ?thesis by blast
qed

text \<open>
  C4. With a model that answers every batch with one number per row, for every sample and
  label the min variant of the forward selection returns a mask, and its run is greedy: it
  starts from the all-ones mask, makes at most \<open>n_features\<close> outer iterations, in each of
  them changes the mask at most once, by setting one feature from 1 to 0, and only to a
  candidate whose loss is strictly smaller than the current best; the mask returned is
  binary and its loss does not exceed that of the all-ones mask. The max variant does the
  same with strictly larger losses, and its result has a loss no smaller than that of the
  all-ones mask.
\<close>

theorem forward_selection_greedy:
  assumes "scalar_model m"
  shows "(\<exists>tr its. forward_selection_run True m n data label = Inr (tr, its)
            \<and> combination_search_forward_selection_min m n data label = Inr (last tr)
            \<and> greedy_run True m n data label tr its)
       \<and> (\<exists>tr its. forward_selection_run False m n data label = Inr (tr, its)
            \<and> combination_search_forward_selection_max m n data label = Inr (last tr)
            \<and> greedy_run False m n data label tr its)"
  unfolding combination_search_forward_selection_min_def
    combination_search_forward_selection_max_def
  using forward_selection_greedy_run [OF assms] by blast

lemma scalar_model_example: "scalar_model example_model"
proof -
  have "length (concat (map (\<lambda>r. [g r]) B)) = length B" for g :: "real list \<Rightarrow> real" and B
    by (induction B) simp_all
  then show ?thesis by (simp add: scalar_model_def example_model_def)
qed

lemma forward_selection_min_example:
  "forward_selection_run True example_model 2 [1, 2] 0 = Inr ([[1, 1], [1, 0], [0, 0]], 2)"
  "combination_search_forward_selection_min example_model 2 [1, 2] 0 = Inr [0, 0]"
  by (simp_all add: forward_selection_run_def combination_search_forward_selection_min_def
      forward_selection_def masked_loss_def example_model_def bind_e_def np_ones_def
      np_multiply_def candidates_def py_extreme_def cmp_loss_def numeral_2_eq_2 upt_rec)

lemma forward_selection_max_example:
  "forward_selection_run False example_model 2 [3, - 1] 1 = Inr ([[1, 1], [0, 1]], 2)"
  "combination_search_forward_selection_max example_model 2 [3, - 1] 1 = Inr [0, 1]"
  by (simp_all add: forward_selection_run_def combination_search_forward_selection_max_def
      forward_selection_def masked_loss_def example_model_def bind_e_def np_ones_def
      np_multiply_def candidates_def py_extreme_def cmp_loss_def numeral_2_eq_2 upt_rec)

theorem forward_selection_greedy_witness:
  "scalar_model example_model
   \<and> forward_selection_run True example_model 2 [1, 2] 0 = Inr ([[1, 1], [1, 0], [0, 0]], 2)
   \<and> combination_search_forward_selection_min example_model 2 [1, 2] 0 = Inr [0, 0]
   \<and> greedy_run True example_model 2 [1, 2] 0 [[1, 1], [1, 0], [0, 0]] 2
   \<and> forward_selection_run False example_model 2 [3, - 1] 1 = Inr ([[1, 1], [0, 1]], 2)
   \<and> combination_search_forward_selection_max example_model 2 [3, - 1] 1 = Inr [0, 1]
   \<and> greedy_run False example_model 2 [3, - 1] 1 [[1, 1], [0, 1]] 2"
proof -
  from forward_selection_greedy [OF scalar_model_example, of 2 "[1, 2]" 0]
  have "\<exists>tr its. forward_selection_run True example_model 2 [1, 2] 0 = Inr (tr, its)
          \<and> greedy_run True example_model 2 [1, 2] 0 tr its"
    by blast
  then have a: "greedy_run True example_model 2 [1, 2] 0 [[1, 1], [1, 0], [0, 0]] 2"
    unfolding forward_selection_min_example by simp
  from forward_selection_greedy [OF scalar_model_example, of 2 "[3, - 1]" 1]
  have "\<exists>tr its. forward_selection_run False example_model 2 [3, - 1] 1 = Inr (tr, its)
          \<and> greedy_run False example_model 2 [3, - 1] 1 tr its"
    by blast
  then have b: "greedy_run False example_model 2 [3, - 1] 1 [[1, 1], [0, 1]] 2"
    unfolding forward_selection_max_example by simp
  show ?thesis
    by (intro conjI scalar_model_example forward_selection_min_example
        forward_selection_max_example a b)
qed

section \<open>scan in mode forward_selection\<close>

lemma forward_selection_rows_Inr:
  "forward_selection_rows f i rs ys T = Inr T' \<Longrightarrow>
     length T' = length T
   \<and> (\<forall>j<length rs. i + j < length T \<and> i + j < length ys
          \<and> f (rs ! j) (ys ! (i + j)) = Inr (T' ! (i + j)))
   \<and> (\<forall>j<i. T' ! j = T ! j)"
proof (induction rs arbitrary: i T)
  case Nil
  then show ?case by simp
next
  case (Cons r rs)
  from Cons.prems obtain sel where
    i: "i < length ys" "i < length T" and sel: "f r (ys ! i) = Inr sel"
    and rec: "forward_selection_rows f (Suc i) rs ys (T[i := sel]) = Inr T'"
    by (auto split: if_splits sum.splits)
  from Cons.IH [OF rec] have l: "length T' = length T"
    and step: "\<forall>j<length rs. Suc i + j < length T \<and> Suc i + j < length ys
          \<and> f (rs ! j) (ys ! (Suc i + j)) = Inr (T' ! (Suc i + j))"
    and keep: "\<forall>j<Suc i. T' ! j = T[i := sel] ! j"
    by simp_all
  from keep i have ti: "T' ! i = sel" by simp
  have "i + j < length T \<and> i + j < length ys
          \<and> f ((r # rs) ! j) (ys ! (i + j)) = Inr (T' ! (i + j))"
    if "j < length (r # rs)" for j
  proof (cases j)
    case 0
    with i sel ti show ?thesis by simp
  next
    case (Suc j')
    with that step show ?thesis by simp
  qed
  moreover have "\<forall>j<i. T' ! j = T ! j" using keep by (simp add: nth_list_update)
  ultimately show ?case using l by blast
qed

text \<open>
  When \<open>scan\<close> returns in mode \<open>forward_selection\<close>, row \<open>i\<close> of \<open>y_better\<close> (aim
  \<open>better\<close>) or of \<open>y_worst\<close> (any other aim) is what the search returns for sample \<open>i\<close>
  and its label.
\<close>

lemma scan_forward_selection:
  assumes mode: "self_combinations_mode s = ''forward_selection''"
    and ret: "scan tts s m X y aim = Inr s'"
    and dat: "scanned_data tts s X y = Inr (Xs, ys)"
    and i: "i < length (cells Xs)"
  shows "aim = ''better'' \<longrightarrow>
           (\<exists>B. self_y_better s' = Some B
              \<and> combination_search_forward_selection_min m (ncols X) (cells Xs ! i) (ys ! i)
                  = Inr (B ! i))"
    and "aim \<noteq> ''better'' \<longrightarrow>
           (\<exists>W. self_y_worst s' = Some W
              \<and> combination_search_forward_selection_max m (ncols X) (cells Xs ! i) (ys ! i)
                  = Inr (W ! i))"
proof -
  from scan_Inr [OF ret dat] obtain s3 where
    g: "generate_combination (scan_setup s X Xs) = Inr s3"
    and sm: "scan_modes m (ncols X) (length (cells X)) Xs ys aim
               (s3\<lparr>self_model := Some m, self_aim := Some aim\<rparr>) = Inr s'"
    by auto
  have m3: "self_combinations_mode s3 = ''forward_selection''"
    using generate_combination_mode [OF g] mode by (simp add: scan_setup_def)
  show "aim = ''better'' \<longrightarrow>
           (\<exists>B. self_y_better s' = Some B
              \<and> combination_search_forward_selection_min m (ncols X) (cells Xs ! i) (ys ! i)
                  = Inr (B ! i))"
  proof
    assume a: "aim = ''better''"
    from sm m3 a have "bind_e (forward_selection_rows
          (combination_search_forward_selection_min m (ncols X)) 0 (cells Xs) ys
          (np_zeros2 (length (cells X)) (ncols X)))
        (\<lambda>B. Inr (s3\<lparr>self_model := Some m, self_aim := Some aim, self_y_better := Some B\<rparr>))
        = Inr s'"
      by (simp add: scan_modes_def)
    from bind_e_Inr [OF this] obtain B where
      B: "forward_selection_rows (combination_search_forward_selection_min m (ncols X)) 0
            (cells Xs) ys (np_zeros2 (length (cells X)) (ncols X)) = Inr B"
      and s': "s' = s3\<lparr>self_model := Some m, self_aim := Some aim, self_y_better := Some B\<rparr>"
      by auto
    from forward_selection_rows_Inr [OF B] i
    have "combination_search_forward_selection_min m (ncols X) (cells Xs ! i) (ys ! i)
            = Inr (B ! i)" by simp
    then show "\<exists>B. self_y_better s' = Some B
              \<and> combination_search_forward_selection_min m (ncols X) (cells Xs ! i) (ys ! i)
                  = Inr (B ! i)"
      unfolding s' by simp
  qed
  show "aim \<noteq> ''better'' \<longrightarrow>
           (\<exists>W. self_y_worst s' = Some W
              \<and> combination_search_forward_selection_max m (ncols X) (cells Xs ! i) (ys ! i)
                  = Inr (W ! i))"
  proof
    assume a: "aim \<noteq> ''better''"
    from sm m3 a have "bind_e (forward_selection_rows
          (combination_search_forward_selection_max m (ncols X)) 0 (cells Xs) ys
          (np_zeros2 (length (cells X)) (ncols X)))
        (\<lambda>W. Inr (s3\<lparr>self_model := Some m, self_aim := Some aim, self_y_worst := Some W\<rparr>))
        = Inr s'"
      by (simp add: scan_modes_def)
    from bind_e_Inr [OF this] obtain W where
      W: "forward_selection_rows (combination_search_forward_selection_max m (ncols X)) 0
            (cells Xs) ys (np_zeros2 (length (cells X)) (ncols X)) = Inr W"
      and s': "s' = s3\<lparr>self_model := Some m, self_aim := Some aim, self_y_worst := Some W\<rparr>"
      by auto
    from forward_selection_rows_Inr [OF W] i
    have "combination_search_forward_selection_max m (ncols X) (cells Xs ! i) (ys ! i)
            = Inr (W ! i)" by simp
    then show "\<exists>W. self_y_worst s' = Some W
              \<and> combination_search_forward_selection_max m (ncols X) (cells Xs ! i) (ys ! i)
                  = Inr (W ! i)"
      unfolding s' by simp
  qed
qed

section \<open>Exceptions that escape\<close>

lemma mapM_e_Inl:
  "i < length xs \<Longrightarrow> (\<forall>j<i. \<exists>v. f (xs ! j) = Inr v) \<Longrightarrow> f (xs ! i) = Inl e
     \<Longrightarrow> mapM_e f xs = Inl e"
proof (induction xs arbitrary: i)
  case Nil
  then show ?case by simp
next
  case (Cons x xs)
  show ?case
  proof (cases i)
    case 0
    with Cons.prems show ?thesis by simp
  next
    case (Suc i')
    from Cons.prems(2) Suc obtain v where v: "f x = Inr v" by force
    have "\<forall>j<i'. \<exists>v. f (xs ! j) = Inr v"
    proof (intro allI impI)
      fix j assume "j < i'"
      then have "Suc j < i" using Suc by simp
      with Cons.prems(2) have "\<exists>v. f ((x # xs) ! Suc j) = Inr v" by blast
      then show "\<exists>v. f (xs ! j) = Inr v" by simp
    qed
    moreover have "i' < length xs" "f (xs ! i') = Inl e" using Cons.prems Suc by simp_all
    ultimately have "mapM_e f xs = Inl e" using Cons.IH by blast
    with v show ?thesis by simp
  qed
qed

lemma scan_modes_model_error:
  assumes "self_combinations_mode s4 \<noteq> ''genetic''"
    and "self_combinations_mode s4 \<noteq> ''forward_selection''"
    and "self_combinations s4 = Some C" and "i < length C"
    and "\<forall>j<i. \<exists>col. loss_column m (cells Xs) ys rows (C ! j) = Inr col"
    and "predict m (map (np_multiply (C ! i)) (cells Xs)) = Inl e"
  shows "scan_modes m n rows Xs ys aim s4 = Inl e"
proof -
  have "loss_column m (cells Xs) ys rows (C ! i) = Inl e"
    using assms(6) by (simp add: loss_column_def bind_e_def)
  from mapM_e_Inl [OF assms(4,5) this]
  have "scan_losses m (cells Xs) ys rows C = Inl e" by (simp add: scan_losses_def bind_e_def)
  then show ?thesis using assms(1,2,3) by (simp add: scan_modes_def bind_e_def)
qed

lemma scan_modes_search_error:
  assumes "self_combinations_mode s4 = ''forward_selection''"
    and "cells Xs = r # rs" and "ys \<noteq> []"
    and "predict m [np_multiply r (np_ones n)] = Inl e"
  shows "scan_modes m n rows Xs ys aim s4 = Inl e"
proof -
  have "forward_selection better m n r (ys ! 0) = Inl e" for better
    using assms(4) by (simp add: forward_selection_def masked_loss_def bind_e_def)
  then show ?thesis
    using assms(1,2,3)
    by (simp add: scan_modes_def bind_e_def combination_search_forward_selection_min_def
        combination_search_forward_selection_max_def)
qed

text \<open>
  C7. The class has one handler, the bare \<open>except\<close> of \<open>get_accuracy\<close>.

  \<^item> \<open>get_accuracy\<close> leaves the object as it was on every path.
  \<^item> When the multiclass computation of the \<open>try\<close> block ends in any exception, the
    exception is dropped and the handler runs the binary computation: it calls
    \<open>accuracy_score\<close> on the labels as they are and the original predictions, prints the
    result, then does the same with the cleaned predictions. What the call returns is
    written out below for each way the handler can go; what the block had printed stays
    printed. An exception of the handler itself escapes.
  \<^item> The block ends in an exception when \<open>accuracy_score\<close> is not bound, when
    \<open>np.argmax(labels, 1)\<close> raises, and when either call of \<open>accuracy_score\<close> raises;
    otherwise both lines are printed and the handler does not run.
  \<^item> Nothing else is caught. An exception of \<open>_get_clean\<close>, raised before the \<open>try\<close>,
    escapes from \<open>get_accuracy\<close>. One of \<open>train_test_split\<close>, of
    \<open>_generate_combination\<close>, of the search (the \<open>NameError\<close> of mode \<open>genetic\<close>, any
    exception while the loss matrix is built or the forward selection runs, those of the
    model among them), escapes from \<open>scan\<close>. One of the \<open>KDTree\<close>
    constructor, of \<open>_ann\<close> and of the learner's \<open>fit\<close> escapes from \<open>learn\<close>. One of the
    tree's query, of the indexing of \<open>self.y\<close> and of the learner's \<open>predict\<close> escapes
    from \<open>get_selection\<close>; one of \<open>get_selection\<close> from \<open>clean_data\<close> and
    \<open>get_robustness\<close>, and one of the product with the selection from \<open>clean_data\<close>. One of the model and of
    \<open>clean_data\<close> escapes from \<open>_get_clean\<close> and \<open>get_behaviour\<close>. The \<open>AttributeError\<close>
    of \<open>get_candidates\<close> escapes.
\<close>

theorem get_accuracy_suppresses:
  "fst (get_accuracy_env g s data labels) = s
 \<and> (get_clean s data = Inr (original, cleaned)
      \<and> accuracy_multiclass g labels original cleaned = (out, Inl e)
    \<longrightarrow> get_accuracy_env g s data labels
          = (case g of
               None \<Rightarrow> (s, out, Inl NameError)
             | Some acc \<Rightarrow>
                 (case acc labels original of
                    Inl e1 \<Rightarrow> (s, out, Inl e1)
                  | Inr r1 \<Rightarrow>
                      (case acc labels cleaned of
                         Inl e2 \<Rightarrow> (s, out @ [Accuracy_before r1], Inl e2)
                       | Inr r2 \<Rightarrow>
                           (s, out @ [Accuracy_before r1, Accuracy_after r2], Inr ())))))
 \<and> accuracy_multiclass None labels original cleaned = ([], Inl NameError)
 \<and> (np_argmax_axis1 labels = Inl e
    \<longrightarrow> accuracy_multiclass (Some acc) labels original cleaned = ([], Inl e))
 \<and> (np_argmax_axis1 labels = Inr a \<and> acc a original = Inl e
    \<longrightarrow> accuracy_multiclass (Some acc) labels original cleaned = ([], Inl e))
 \<and> (np_argmax_axis1 labels = Inr a \<and> acc a original = Inr r1 \<and> acc a cleaned = Inl e
    \<longrightarrow> accuracy_multiclass (Some acc) labels original cleaned = ([Accuracy_before r1], Inl e))
 \<and> (get_clean s data = Inr (original, cleaned) \<and> np_argmax_axis1 labels = Inr a
      \<and> acc a original = Inr r1 \<and> acc a cleaned = Inr r2
    \<longrightarrow> get_accuracy_env (Some acc) s data labels
          = (s, [Accuracy_before r1, Accuracy_after r2], Inr ()))
 \<and> (get_clean s data = Inl e \<longrightarrow> get_accuracy_env g s data labels = (s, [], Inl e))
 \<and> (scanned_data tts s X y = Inl e \<longrightarrow> scan tts s m X y aim = Inl e)
 \<and> (scanned_data tts s X y = Inr (Xs, ys)
      \<and> generate_combination (scan_setup s X Xs) = Inl e
    \<longrightarrow> scan tts s m X y aim = Inl e)
 \<and> (scanned_data tts s X y = Inr (Xs, ys)
      \<and> generate_combination (scan_setup s X Xs) = Inr s3
      \<and> scan_modes m (ncols X) (length (cells X)) Xs ys aim
           (s3\<lparr>self_model := Some m, self_aim := Some aim\<rparr>) = Inl e
    \<longrightarrow> scan tts s m X y aim = Inl e)
 \<and> (self_combinations_mode s4 \<noteq> ''genetic''
      \<and> self_combinations_mode s4 \<noteq> ''forward_selection''
      \<and> self_combinations s4 = Some C \<and> i < length C
      \<and> (\<forall>j<i. \<exists>col. loss_column m (cells Xs) ys rows (C ! j) = Inr col)
      \<and> predict m (map (np_multiply (C ! i)) (cells Xs)) = Inl e
    \<longrightarrow> scan_modes m n rows Xs ys aim s4 = Inl e)
 \<and> (self_combinations_mode s4 = ''forward_selection'' \<and> cells Xs = r # rs \<and> ys \<noteq> []
      \<and> predict m [np_multiply r (np_ones n)] = Inl e
    \<longrightarrow> scan_modes m n rows Xs ys aim s4 = Inl e)
 \<and> (mapM_e (masked_loss m row label) (candidates n best) = Inl e
    \<longrightarrow> forward_selection_loop better m row label n (Suc k) best bl = Inl e)
 \<and> (KDTree_build (self_X s) = Inl e \<longrightarrow> learn s ''knn'' aim None train = Inl e)
 \<and> learn s ''ann'' aim None train = Inl NameError
 \<and> (self_learner s = Some (Keras p fit) \<and> self_X s = Some A \<and> self_y s = Some Y
      \<and> fit (cells A) Y = Inl e
    \<longrightarrow> ann s True = Inl e)
 \<and> (ann (s\<lparr>self_aim := (if falsy (self_aim s) then Some aim else self_aim s),
             self_y := (if (if falsy (self_aim s) then Some aim else self_aim s) = Some ''better''
                        then self_y_better s else self_y_worst s),
             self_algorithm := Some ''ann'',
             self_learner := learner\<rparr>) train = Inl e
    \<longrightarrow> learn s ''ann'' aim learner train = Inl e)
 \<and> (self_algorithm s = Some ''knn'' \<and> self_learner s = Some (KDTree T)
      \<and> KDTree_query T data = Inl e
    \<longrightarrow> get_selection s data = Inl e)
 \<and> (self_algorithm s = Some ''ann'' \<and> self_learner s = Some (Keras p fit)
      \<and> p (cells data) = Inl e
    \<longrightarrow> get_selection s data = Inl e)
 \<and> (get_selection s data = Inl e \<longrightarrow> clean_data s data = Inl e)
 \<and> (get_selection s data = Inl e \<longrightarrow> get_robustness s (Some data) = Inl e)
 \<and> (self_model s = Some m \<and> predict_classes m (cells data) = Inl e
    \<longrightarrow> get_clean s data = Inl e)
 \<and> (self_model s = Some m \<and> predict_classes m (cells data) = Inr original
      \<and> clean_data s data = Inl e
    \<longrightarrow> get_clean s data = Inl e)
 \<and> (self_model s = Some m \<and> predict_classes m (cells data) = Inr original
      \<and> clean_data s data = Inr c \<and> predict_classes m c = Inl e
    \<longrightarrow> get_clean s data = Inl e)
 \<and> (self_model s = Some m \<and> predict m (cells data) = Inl e
    \<longrightarrow> get_behaviour s data = Inl e)
 \<and> (self_model s = Some m \<and> predict m (cells data) = Inr po \<and> clean_data s data = Inl e
    \<longrightarrow> get_behaviour s data = Inl e)
 \<and> (self_model s = Some m \<and> predict m (cells data) = Inr po \<and> clean_data s data = Inr c
      \<and> predict m c = Inl e
    \<longrightarrow> get_behaviour s data = Inl e)
 \<and> get_candidates s data threshold = Inl AttributeError
 \<and> (self_combinations_mode s4 = ''genetic'' \<and> cells Xs \<noteq> []
    \<longrightarrow> scan_modes m n rows Xs ys aim s4 = Inl NameError)
 \<and> (self_combinations_mode s4 \<noteq> ''genetic''
      \<and> self_combinations_mode s4 \<noteq> ''forward_selection''
      \<and> self_combinations s4 = Some C
      \<and> scan_losses m (cells Xs) ys rows C = Inl e
    \<longrightarrow> scan_modes m n rows Xs ys aim s4 = Inl e)
 \<and> (self_combinations_mode s4 = ''forward_selection''
      \<and> forward_selection_rows
           (if aim = ''better'' then combination_search_forward_selection_min m n
            else combination_search_forward_selection_max m n)
           0 (cells Xs) ys (np_zeros2 rows n) = Inl e
    \<longrightarrow> scan_modes m n rows Xs ys aim s4 = Inl e)
 \<and> (self_algorithm s = Some ''knn'' \<and> self_learner s = Some (KDTree T)
      \<and> KDTree_query T data = Inr ind \<and> self_y s = Some Y
      \<and> np_index_rows Y ind = Inl e
    \<longrightarrow> get_selection s data = Inl e)
 \<and> (get_selection s data = Inr (Some M) \<and> np_multiply2 (cells data) M = Inl e
    \<longrightarrow> clean_data s data = Inl e)"
  apply (intro conjI impI)
  subgoal by (simp add: get_accuracy_env_def split: sum.splits prod.splits)
  subgoal
    by (auto simp: get_accuracy_env_def accuracy_binary_def
        split: option.splits sum.splits prod.splits)
  subgoal by (simp add: accuracy_multiclass_def)
  subgoal by (simp add: accuracy_multiclass_def bind_e_def)
  subgoal by (simp add: accuracy_multiclass_def bind_e_def)
  subgoal by (simp add: accuracy_multiclass_def bind_e_def)
  subgoal by (simp add: get_accuracy_env_def accuracy_multiclass_def bind_e_def)
  subgoal by (simp add: get_accuracy_env_def)
  subgoal by (simp add: scan_def bind_e_def scanned_data_n_features)
  subgoal by (simp add: scan_def bind_e_def scanned_data_n_features)
  subgoal by (simp add: scan_def bind_e_def scanned_data_n_features)
  subgoal by (elim conjE) (rule scan_modes_model_error)
  subgoal by (elim conjE) (rule scan_modes_search_error)
  subgoal by simp
  subgoal by (simp add: learn_def bind_e_def Let_def)
  subgoal by (simp add: learn_def bind_e_def Let_def ann_def)
  subgoal by (simp add: ann_def bind_e_def)
  subgoal by (simp add: learn_def bind_e_def Let_def)
  subgoal by (simp add: get_selection_def bind_e_def)
  subgoal by (simp add: get_selection_def bind_e_def)
  subgoal by (simp add: clean_data_def bind_e_def)
  subgoal by (simp add: get_robustness_def bind_e_def)
  subgoal by (simp add: get_clean_def bind_e_def)
  subgoal by (simp add: get_clean_def bind_e_def)
  subgoal by (simp add: get_clean_def bind_e_def)
  subgoal by (simp add: get_behaviour_def bind_e_def)
  subgoal by (simp add: get_behaviour_def bind_e_def)
  subgoal by (simp add: get_behaviour_def bind_e_def)
  subgoal by (simp add: get_candidates_def getattr_SAFE_def SAFE_attributes_def bind_e_def)
  subgoal by (simp add: scan_modes_def)
  subgoal by (simp add: scan_modes_def bind_e_def)
  subgoal by (simp add: scan_modes_def bind_e_def split: if_splits)
  subgoal by (simp add: get_selection_def bind_e_def)
  subgoal by (simp add: clean_data_def bind_e_def)
  done

theorem get_accuracy_suppresses_witness:
  "get_clean example_learned example_query = Inr ([1], [1])
   \<and> accuracy_multiclass (Some example_accuracy_score) (Labels1 [1]) [1] [1] = ([], Inl AxisError)
   \<and> get_accuracy_env (Some example_accuracy_score) example_learned example_query (Labels1 [1])
       = (example_learned, [Accuracy_before 1, Accuracy_after 1], Inr ())
   \<and> get_clean (init ''all'' 10 None None) example_query = Inl AttributeError
   \<and> get_accuracy_env (Some example_accuracy_score) (init ''all'' 10 None None) example_query
         (Labels1 [1])
       = (init ''all'' 10 None None, [], Inl AttributeError)
   \<and> KDTree_build (self_X (init ''all'' 10 None None)) = Inl ValueError
   \<and> learn (init ''all'' 10 None None) ''knn'' ''worst'' None False = Inl ValueError
   \<and> predict example_failing_model (map (np_multiply ([[1], [0]] ! 0)) (cells example_X))
       = Inl OtherError
   \<and> scan_modes example_failing_model 1 2 example_X example_y ''worst'' example_scanned
       = Inl OtherError"
proof -
  have a: "get_clean example_learned example_query = Inr ([1], [1])
           \<and> accuracy_multiclass (Some example_accuracy_score) (Labels1 [1]) [1] [1]
               = ([], Inl AxisError)"
    by (simp add: get_clean_example accuracy_multiclass_def np_argmax_axis1_def bind_e_def)
  have c: "get_clean (init ''all'' 10 None None) example_query = Inl AttributeError"
    by (simp add: get_clean_def init_def)
  have d: "KDTree_build (self_X (init ''all'' 10 None None)) = Inl ValueError"
    by (simp add: KDTree_build_def init_def)
  have f: "predict example_failing_model (map (np_multiply ([[1], [0]] ! 0)) (cells example_X))
             = Inl OtherError"
    by (simp add: example_failing_model_def)
  have g: "self_combinations_mode example_scanned \<noteq> ''genetic''
           \<and> self_combinations_mode example_scanned \<noteq> ''forward_selection''
           \<and> self_combinations example_scanned = Some [[1], [0]] \<and> 0 < length [[1::real], [0]]
           \<and> (\<forall>j<0::nat. \<exists>col. loss_column example_failing_model (cells example_X) example_y 2
                  ([[1], [0]] ! j) = Inr col)
           \<and> predict example_failing_model (map (np_multiply ([[1], [0]] ! 0)) (cells example_X))
               = Inl OtherError"
    by (simp add: example_scanned_def example_failing_model_def)
  note t1 = get_accuracy_suppresses [where g = "Some example_accuracy_score"
      and s = example_learned and data = example_query and labels = "Labels1 [1]"
      and original = "[1]" and cleaned = "[1]" and out = "[]" and e = AxisError]
  note t2 = get_accuracy_suppresses [where g = "Some example_accuracy_score"
      and s = "init ''all'' 10 None None" and data = example_query and labels = "Labels1 [1]"
      and e = AttributeError]
  note t3 = get_accuracy_suppresses [where s = "init ''all'' 10 None None" and e = ValueError
      and aim = "''worst''" and train = False]
  note t4 = get_accuracy_suppresses [where ?s4.0 = example_scanned and C = "[[1], [0]]" and i = 0
      and m = example_failing_model and Xs = example_X and ys = example_y and rows = 2
      and e = OtherError and n = 1 and aim = "''worst''"]
  have 1: "get_accuracy_env (Some example_accuracy_score) example_learned example_query
             (Labels1 [1])
           = (example_learned, [Accuracy_before 1, Accuracy_after 1], Inr ())"
    using t1 [THEN conjunct2, THEN conjunct1] a by (simp add: example_accuracy_score_def)
  have 2: "get_accuracy_env (Some example_accuracy_score) (init ''all'' 10 None None)
             example_query (Labels1 [1])
           = (init ''all'' 10 None None, [], Inl AttributeError)"
    using t2 [THEN conjunct2, THEN conjunct2, THEN conjunct2, THEN conjunct2, THEN conjunct2,
        THEN conjunct2, THEN conjunct2, THEN conjunct1] c by simp
  have 3: "learn (init ''all'' 10 None None) ''knn'' ''worst'' None False = Inl ValueError"
    using t3 [THEN conjunct2, THEN conjunct2, THEN conjunct2, THEN conjunct2, THEN conjunct2,
        THEN conjunct2, THEN conjunct2, THEN conjunct2, THEN conjunct2, THEN conjunct2,
        THEN conjunct2, THEN conjunct2, THEN conjunct2, THEN conjunct2, THEN conjunct1] d
    by simp
  have 4: "scan_modes example_failing_model 1 2 example_X example_y ''worst'' example_scanned
             = Inl OtherError"
    using t4 [THEN conjunct2, THEN conjunct2, THEN conjunct2, THEN conjunct2, THEN conjunct2,
        THEN conjunct2, THEN conjunct2, THEN conjunct2, THEN conjunct2, THEN conjunct2,
        THEN conjunct2, THEN conjunct1] g
    by simp
  show ?thesis
    by (intro conjI a [THEN conjunct1] a [THEN conjunct2] 1 c 2 d 3 f 4)
qed

section \<open>Determinism\<close>

lemma scan_setup_frame:
  "scan_setup (s\<lparr>self_n_features := nf, self_X := x0, self_y_better := b0, self_y_worst := w0,
                 self_model := m0, self_aim := a0\<rparr>) X Xs
     = (scan_setup s X Xs)\<lparr>self_model := m0, self_aim := a0\<rparr>"
  by (simp add: scan_setup_def)

lemma generate_combination_frame:
  "bind_e (generate_combination (s\<lparr>self_model := m0, self_aim := a0\<rparr>))
       (\<lambda>s3. f (s3\<lparr>self_model := m1, self_aim := a1\<rparr>))
     = bind_e (generate_combination s) (\<lambda>s3. f (s3\<lparr>self_model := m1, self_aim := a1\<rparr>))"
  by (simp add: generate_combination_def bind_e_def Let_def split: option.splits)

lemma scanned_data_frame:
  "scanned_data tts (s\<lparr>self_n_features := nf, self_X := x0, self_y_better := b0,
       self_y_worst := w0, self_model := m0, self_aim := a0\<rparr>) X y = scanned_data tts s X y"
  by (simp add: scanned_data_def split: option.splits)

lemma scanned_data_no_split:
  "self_n_points s = None \<Longrightarrow> scanned_data tts s X y = Inr (X, y)"
  by (simp add: scanned_data_def)

lemma scan_frame:
  assumes "self_n_points s = None"
  shows "scan tts (s\<lparr>self_n_features := nf, self_X := x0, self_y_better := b0,
             self_y_worst := w0, self_model := m0, self_aim := a0\<rparr>) m X y aim
           = scan tts' s m X y aim"
proof -
  have "scan tts (s\<lparr>self_n_features := nf, self_X := x0, self_y_better := b0,
             self_y_worst := w0, self_model := m0, self_aim := a0\<rparr>) m X y aim
        = bind_e (generate_combination ((scan_setup s X X)\<lparr>self_model := m0, self_aim := a0\<rparr>))
            (\<lambda>s3. scan_modes m (ncols X) (length (cells X)) X y aim
                     (s3\<lparr>self_model := Some m, self_aim := Some aim\<rparr>))"
    unfolding scan_def scanned_data_n_features scanned_data_frame
      scanned_data_no_split [OF assms] scan_setup_frame
    by (simp add: bind_e_def)
  also have "\<dots> = bind_e (generate_combination (scan_setup s X X))
            (\<lambda>s3. scan_modes m (ncols X) (length (cells X)) X y aim
                     (s3\<lparr>self_model := Some m, self_aim := Some aim\<rparr>))"
    by (rule generate_combination_frame)
  also have "\<dots> = scan tts' s m X y aim"
    unfolding scan_def scanned_data_n_features scanned_data_no_split [OF assms]
    by (simp add: bind_e_def)
  finally show ?thesis .
qed

lemma learn_knn_frame:
  "learn (s\<lparr>self_algorithm := al, self_learner := l0, self_y := y0\<rparr>) ''knn'' aim learner train
     = learn s ''knn'' aim learner train'"
  by (auto simp: learn_def Let_def bind_e_def falsy_def split: sum.splits)

lemma width_of_frame:
  "self_n_features s' = self_n_features s \<Longrightarrow> width_of s' = width_of s"
  by (simp add: width_of_def fun_eq_iff split: list.splits)

text \<open>
  C10. With the model a fixed function and \<open>n_points\<close> left as \<open>None\<close>, no operation
  depends on anything but the object and its inputs, and of the object only on the fields
  it reads:

  \<^item> \<open>scan\<close> does not consult the random splitter, and the fields it assigns
    (\<open>n_features\<close>, \<open>X\<close>, \<open>y_better\<close>, \<open>y_worst\<close>, \<open>model\<close>, \<open>aim\<close>) do not matter
    beforehand: outcome and object are the same whatever the splitter would have drawn;
  \<^item> \<open>learn\<close> with \<open>knn\<close> does not train, and the fields it assigns (\<open>algorithm\<close>,
    \<open>learner\<close>, \<open>y\<close>) do not matter beforehand;
  \<^item> \<open>get_selection\<close> and \<open>clean_data\<close> read \<open>algorithm\<close>, \<open>learner\<close> and \<open>y\<close>;
    \<open>get_robustness\<close> reads these and \<open>n_features\<close> when it is given data, and
    \<open>y_better\<close>, \<open>y_worst\<close> and \<open>n_features\<close> when it is not.

  Two runs from equal objects on equal inputs are the case where all fields agree.
\<close>

theorem operations_deterministic:
  assumes "self_n_points s = None"
  shows "scan tts (s\<lparr>self_n_features := nf, self_X := x0, self_y_better := b0,
             self_y_worst := w0, self_model := m0, self_aim := a0\<rparr>) m X y aim
           = scan tts' s m X y aim
       \<and> learn (s\<lparr>self_algorithm := al, self_learner := l0, self_y := y0\<rparr>) ''knn'' aim learner
             train
           = learn s ''knn'' aim learner train'
       \<and> (self_algorithm s' = self_algorithm s \<and> self_learner s' = self_learner s
            \<and> self_y s' = self_y s
          \<longrightarrow> get_selection s' data = get_selection s data
              \<and> clean_data s' data = clean_data s data
              \<and> (self_n_features s' = self_n_features s
                 \<longrightarrow> get_robustness s' (Some data) = get_robustness s (Some data)))
       \<and> (self_y_better s' = self_y_better s \<and> self_y_worst s' = self_y_worst s
            \<and> self_n_features s' = self_n_features s
          \<longrightarrow> get_robustness s' None = get_robustness s None)"
proof (intro conjI impI)
  show "scan tts (s\<lparr>self_n_features := nf, self_X := x0, self_y_better := b0,
             self_y_worst := w0, self_model := m0, self_aim := a0\<rparr>) m X y aim
           = scan tts' s m X y aim"
    by (rule scan_frame [OF assms])
  show "learn (s\<lparr>self_algorithm := al, self_learner := l0, self_y := y0\<rparr>) ''knn'' aim learner
             train
           = learn s ''knn'' aim learner train'"
    by (rule learn_knn_frame)
next
  assume h: "self_algorithm s' = self_algorithm s \<and> self_learner s' = self_learner s
            \<and> self_y s' = self_y s"
  then show gs: "get_selection s' data = get_selection s data"
    by (simp add: get_selection_def split: option.splits learner.splits)
  then show "clean_data s' data = clean_data s data"
    by (simp add: clean_data_def)
  show "get_robustness s' (Some data) = get_robustness s (Some data)"
    if "self_n_features s' = self_n_features s"
    using gs by (simp add: get_robustness_def width_of_frame [OF that])
next
  assume r: "self_y_better s' = self_y_better s \<and> self_y_worst s' = self_y_worst s
            \<and> self_n_features s' = self_n_features s"
  then have "width_of s' = width_of s"
    by (intro width_of_frame) simp
  with r show "get_robustness s' None = get_robustness s None"
    by (simp add: get_robustness_def split: option.splits)
qed

theorem operations_deterministic_witness:
  "self_n_points (init ''all'' 10 None None) = None
   \<and> scan no_split
        ((init ''all'' 10 None None)\<lparr>self_n_features := Some 7, self_X := Some example_query,
            self_y_better := Some [[5]], self_y_worst := None,
            self_model := Some example_failing_model, self_aim := Some ''better''\<rparr>)
        example_model example_X example_y ''worst''
       = scan (\<lambda>A y t r. Inr (A, y)) (init ''all'' 10 None None) example_model example_X
           example_y ''worst''
   \<and> scan (\<lambda>A y t r. Inr (A, y)) (init ''all'' 10 None None) example_model example_X
         example_y ''worst''
       = Inr example_scanned
   \<and> learn (example_scanned\<lparr>self_algorithm := Some ''ann'',
                self_learner := Some example_doubling_learner, self_y := Some [[7]]\<rparr>)
         ''knn'' ''worst'' None True
       = Inr (example_learned, Some (KDTree example_X))
   \<and> self_algorithm (example_learned\<lparr>self_model := None, self_n_combinations := 3\<rparr>)
       = self_algorithm example_learned
   \<and> self_learner (example_learned\<lparr>self_model := None, self_n_combinations := 3\<rparr>)
       = self_learner example_learned
   \<and> self_y (example_learned\<lparr>self_model := None, self_n_combinations := 3\<rparr>)
       = self_y example_learned
   \<and> get_selection (example_learned\<lparr>self_model := None, self_n_combinations := 3\<rparr>)
         example_query
       = Inr (Some [[1]])
   \<and> clean_data (example_learned\<lparr>self_model := None, self_n_combinations := 3\<rparr>)
         example_query
       = Inr [[1]]"
proof -
  have n1: "self_n_points (init ''all'' 10 None None) = None"
    by (simp add: init_def)
  have n2: "self_n_points example_scanned = None"
    by (simp add: example_scanned_def)
  have n3: "self_n_points example_learned = None"
    by (simp add: example_learned_def example_scanned_def)
  note t1 = operations_deterministic [where s = "init ''all'' 10 None None" and tts = no_split
      and tts' = "\<lambda>A y t r. Inr (A, y)" and nf = "Some 7" and ?x0.0 = "Some example_query"
      and ?b0.0 = "Some [[5]]" and ?w0.0 = None and ?m0.0 = "Some example_failing_model"
      and ?a0.0 = "Some ''better''" and m = example_model and X = example_X and y = example_y
      and aim = "''worst''", OF n1]
  note t2 = operations_deterministic [where s = example_scanned and al = "Some ''ann''"
      and ?l0.0 = "Some example_doubling_learner" and ?y0.0 = "Some [[7]]" and aim = "''worst''"
      and learner = None and train = True and train' = False, OF n2]
  note t3 = operations_deterministic [where s = example_learned
      and s' = "example_learned\<lparr>self_model := None, self_n_combinations := 3\<rparr>"
      and data = example_query, OF n3]
  have f: "self_algorithm (example_learned\<lparr>self_model := None, self_n_combinations := 3\<rparr>)
             = self_algorithm example_learned
           \<and> self_learner (example_learned\<lparr>self_model := None, self_n_combinations := 3\<rparr>)
             = self_learner example_learned
           \<and> self_y (example_learned\<lparr>self_model := None, self_n_combinations := 3\<rparr>)
             = self_y example_learned"
    by simp
  have 1: "scan no_split
        ((init ''all'' 10 None None)\<lparr>self_n_features := Some 7, self_X := Some example_query,
            self_y_better := Some [[5]], self_y_worst := None,
            self_model := Some example_failing_model, self_aim := Some ''better''\<rparr>)
        example_model example_X example_y ''worst''
       = scan (\<lambda>A y t r. Inr (A, y)) (init ''all'' 10 None None) example_model example_X
           example_y ''worst''"
    by (rule t1 [THEN conjunct1])
  have 2: "learn (example_scanned\<lparr>self_algorithm := Some ''ann'',
                self_learner := Some example_doubling_learner, self_y := Some [[7]]\<rparr>)
         ''knn'' ''worst'' None True
       = Inr (example_learned, Some (KDTree example_X))"
    unfolding t2 [THEN conjunct2, THEN conjunct1] by (rule learn_example)
  from t3 [THEN conjunct2, THEN conjunct2, THEN conjunct1, rule_format, OF f]
  have 3: "get_selection (example_learned\<lparr>self_model := None, self_n_combinations := 3\<rparr>)
         example_query = Inr (Some [[1]])"
    and 4: "clean_data (example_learned\<lparr>self_model := None, self_n_combinations := 3\<rparr>)
         example_query = Inr [[1]]"
    by (simp_all add: get_selection_example clean_data_example)
  show ?thesis
    by (intro conjI n1 1 scan_example 2 f [THEN conjunct1] f [THEN conjunct2, THEN conjunct1]
        f [THEN conjunct2, THEN conjunct2] 3 4)
qed

end
